theory Spec2Isabelle
  imports Main "HOL-Library.AList"
begin

section \<open>JavaScript strings and values\<close>

text \<open>
  The backend is \<^verbatim>\<open>backend/server.js\<close>. A JavaScript string is modelled as a
  \<^typ>\<open>string\<close>: one \<^typ>\<open>char\<close> stands for one UTF-16 code unit below 256, so
  \<open>length\<close> is the \<^verbatim>\<open>.length\<close> of the source. A value that may be
  \<^verbatim>\<open>undefined\<close> or \<^verbatim>\<open>null\<close> is an \<open>option\<close>.
\<close>

definition truthy :: "string option \<Rightarrow> bool" where
  "truthy v = (case v of None \<Rightarrow> False | Some s \<Rightarrow> s \<noteq> [])"

text \<open>\<^verbatim>\<open>a || b\<close> on string-or-undefined operands, and \<^verbatim>\<open>a || 'default'\<close>.\<close>

definition js_or :: "string option \<Rightarrow> string option \<Rightarrow> string option" where
  "js_or a b = (if truthy a then a else b)"

definition or_default :: "string option \<Rightarrow> string \<Rightarrow> string" where
  "or_default a d = (case a of None \<Rightarrow> d | Some s \<Rightarrow> if s = [] then d else s)"

text \<open>\<^verbatim>\<open>x || null\<close>: the empty string becomes null as well.\<close>

definition or_null :: "string option \<Rightarrow> string option" where
  "or_null a = (if truthy a then a else None)"

text \<open>White space as \<^verbatim>\<open>trim\<close>, \<^verbatim>\<open>\s\<close> and \<^verbatim>\<open>parseInt\<close> read it
  (the code units below 256: TAB, LF, VT, FF, CR, SP, NBSP).\<close>

definition js_space :: "char \<Rightarrow> bool" where
  "js_space c = (c = CHR 0x09 \<or> c = CHR 0x0A \<or> c = CHR 0x0B \<or> c = CHR 0x0C
     \<or> c = CHR 0x0D \<or> c = CHR 0x20 \<or> c = CHR 0xA0)"

definition trim :: "string \<Rightarrow> string" where
  "trim s = rev (dropWhile js_space (rev (dropWhile js_space s)))"

definition startsWith :: "string \<Rightarrow> string \<Rightarrow> bool" where
  "startsWith s p = (take (length p) s = p)"

definition endsWith :: "string \<Rightarrow> string \<Rightarrow> bool" where
  "endsWith s p = (length p \<le> length s \<and> drop (length s - length p) s = p)"

text \<open>\<^verbatim>\<open>s.split(c)\<close> for a one-character separator.\<close>

fun split_on :: "char \<Rightarrow> string \<Rightarrow> string list" where
  "split_on c [] = [[]]"
| "split_on c (x # xs) =
     (if x = c then [] # split_on c xs
      else (case split_on c xs of [] \<Rightarrow> [[x]] | w # ws \<Rightarrow> (x # w) # ws))"

text \<open>\<^verbatim>\<open>parts.join(sep)\<close>.\<close>

fun join_with :: "string \<Rightarrow> string list \<Rightarrow> string" where
  "join_with sep [] = []"
| "join_with sep [w] = w"
| "join_with sep (w # v # ws) = w @ sep @ join_with sep (v # ws)"

definition ascii_lower :: "char \<Rightarrow> char" where
  "ascii_lower c = (let n = (of_char c :: nat) in
     if 65 \<le> n \<and> n \<le> 90 then char_of (n + 32) else c)"

definition is_alnum :: "char \<Rightarrow> bool" where
  "is_alnum c = (let n = (of_char c :: nat) in
     (48 \<le> n \<and> n \<le> 57) \<or> (65 \<le> n \<and> n \<le> 90) \<or> (97 \<le> n \<and> n \<le> 122))"

subsection \<open>parseInt and Array.prototype.slice\<close>

definition digit_val :: "nat \<Rightarrow> char \<Rightarrow> nat option" where
  "digit_val radix c = (let n = (of_char c :: nat);
       v = (if 48 \<le> n \<and> n \<le> 57 then Some (n - 48)
            else if 97 \<le> n \<and> n \<le> 122 then Some (n - 87)
            else if 65 \<le> n \<and> n \<le> 90 then Some (n - 55)
            else None)
     in case v of None \<Rightarrow> None | Some d \<Rightarrow> if d < radix then Some d else None)"

fun digits_val :: "nat \<Rightarrow> nat \<Rightarrow> string \<Rightarrow> nat" where
  "digits_val radix acc [] = acc"
| "digits_val radix acc (c # cs) =
     (case digit_val radix c of None \<Rightarrow> acc
      | Some d \<Rightarrow> digits_val radix (acc * radix + d) cs)"

text \<open>
  \<^verbatim>\<open>parseInt(s)\<close> with no radix: leading white space is skipped, then a sign, then
  \<^verbatim>\<open>0x\<close> selects radix 16, then the longest run of digits is read; \<open>None\<close> is NaN.
  The result is the mathematical integer (the source's double rounds it beyond
  \<open>2^53\<close>; the one caller only compares it with an array length).
\<close>

definition parseInt :: "string \<Rightarrow> int option" where
  "parseInt s =
     (let s1 = dropWhile js_space s;
          neg = (s1 \<noteq> [] \<and> hd s1 = CHR ''-'');
          s2 = (if s1 \<noteq> [] \<and> (hd s1 = CHR ''-'' \<or> hd s1 = CHR ''+'') then tl s1 else s1);
          hex = (startsWith s2 ''0x'' \<or> startsWith s2 ''0X'');
          radix = (if hex then 16 else 10);
          s3 = (if hex then drop 2 s2 else s2)
      in if s3 = [] \<or> digit_val radix (hd s3) = None then None
         else Some ((if neg then -1 else 1) * int (digits_val radix 0 s3)))"

text \<open>Truncation towards zero of \<open>n / 8\<close> (\<^verbatim>\<open>ToIntegerOrInfinity\<close> of the quotient).\<close>

definition trunc_div8 :: "int \<Rightarrow> int" where
  "trunc_div8 n = (if 0 \<le> n then n div 8 else - ((- n) div 8))"

text \<open>\<^verbatim>\<open>xs.slice(0, e)\<close>, where \<open>None\<close> is a NaN end (read as 0) and a negative end
  counts from the end of the array.\<close>

definition slice0 :: "'a list \<Rightarrow> int option \<Rightarrow> 'a list" where
  "slice0 xs e =
     (case e of None \<Rightarrow> []
      | Some k \<Rightarrow> if k < 0 then take (nat (int (length xs) + k)) xs else take (nat k) xs)"

section \<open>Regular expressions\<close>

text \<open>
  The source scrapes HTML with regular expressions. Every one of them is a sequence of
  single characters, character classes, greedy repetitions of a single character or
  class, one capture group, and (once) an alternation of literal words, so a pattern is
  a list of such items. The matcher is the backtracking matcher of the language: a
  greedy repetition tries the longest run first, alternatives are tried left to right,
  and a search takes the leftmost position where a match exists. The flag \<open>ci\<close> is
  the \<^verbatim>\<open>i\<close> flag; the patterns of the source hold ASCII characters only, so it
  identifies the two cases of the letters A to Z.
\<close>

datatype atom =
    Ch char                \<comment> \<open>a literal character\<close>
  | Cls "char list"        \<comment> \<open>\<^verbatim>\<open>[abc]\<close>\<close>
  | NCls "char list"       \<comment> \<open>\<^verbatim>\<open>[^abc]\<close>\<close>
  | Space                  \<comment> \<open>\<^verbatim>\<open>\s\<close>\<close>

datatype item =
    One atom
  | Rep atom nat "nat option"   \<comment> \<open>greedy \<^verbatim>\<open>a{lo,hi}\<close>; \<open>None\<close> is no upper bound\<close>
  | GOpen                       \<comment> \<open>capture group 1 opens\<close>
  | GClose                      \<comment> \<open>capture group 1 closes\<close>
  | Alt "string list"           \<comment> \<open>\<^verbatim>\<open>(w1|w2|...)\<close> of literal words\<close>

definition ch_eq :: "bool \<Rightarrow> char \<Rightarrow> char \<Rightarrow> bool" where
  "ch_eq ci c x = (if ci then ascii_lower x = ascii_lower c else x = c)"

fun atom_ok :: "bool \<Rightarrow> atom \<Rightarrow> char \<Rightarrow> bool" where
  "atom_ok ci (Ch c) x = ch_eq ci c x"
| "atom_ok ci (Cls cs) x = list_ex (\<lambda>c. ch_eq ci c x) cs"
| "atom_ok ci (NCls cs) x = (\<not> list_ex (\<lambda>c. ch_eq ci c x) cs)"
| "atom_ok ci Space x = js_space x"

definition lit :: "string \<Rightarrow> item list" where
  "lit w = map (\<lambda>c. One (Ch c)) w"

text \<open>The longest run of characters an atom accepts, up to the upper bound.\<close>

definition run_len :: "bool \<Rightarrow> atom \<Rightarrow> nat option \<Rightarrow> string \<Rightarrow> nat" where
  "run_len ci a hi s =
     (let n = length (takeWhile (atom_ok ci a) s)
      in case hi of None \<Rightarrow> n | Some h \<Rightarrow> min h n)"

definition word_ok :: "bool \<Rightarrow> string \<Rightarrow> string \<Rightarrow> bool" where
  "word_ok ci w s = (length w \<le> length s \<and> list_all2 (ch_eq ci) w (take (length w) s))"

fun first_some :: "('a \<Rightarrow> 'b option) \<Rightarrow> 'a list \<Rightarrow> 'b option" where
  "first_some f [] = None"
| "first_some f (x # xs) = (case f x of Some y \<Rightarrow> Some y | None \<Rightarrow> first_some f xs)"

lemma first_some_cong [fundef_cong]:
  "xs = ys \<Longrightarrow> (\<And>x. x \<in> set ys \<Longrightarrow> f x = g x) \<Longrightarrow> first_some f xs = first_some g ys"
  by (induction ys arbitrary: xs) (auto split: option.splits)

text \<open>The capture in progress: whether group 1 is open, and what it holds.\<close>

type_synonym capture = "bool \<times> string"

definition consume :: "capture \<Rightarrow> string \<Rightarrow> capture" where
  "consume st xs = (fst st, if fst st then snd st @ xs else snd st)"

text \<open>\<open>rmatch ci rs st s\<close> matches the pattern at the start of \<open>s\<close>: the first match
  in backtracking order, as (group 1, what is left of \<open>s\<close>).\<close>

fun rmatch :: "bool \<Rightarrow> item list \<Rightarrow> capture \<Rightarrow> string \<Rightarrow> (string \<times> string) option" where
  "rmatch ci [] st s = Some (snd st, s)"
| "rmatch ci (One a # rs) st s =
     (case s of [] \<Rightarrow> None
      | x # t \<Rightarrow> if atom_ok ci a x then rmatch ci rs (consume st [x]) t else None)"
| "rmatch ci (Rep a lo hi # rs) st s =
     first_some (\<lambda>k. rmatch ci rs (consume st (take k s)) (drop k s))
       (rev [lo ..< Suc (run_len ci a hi s)])"
| "rmatch ci (GOpen # rs) st s = rmatch ci rs (True, []) s"
| "rmatch ci (GClose # rs) st s = rmatch ci rs (False, snd st) s"
| "rmatch ci (Alt ws # rs) st s =
     first_some (\<lambda>w. if word_ok ci w s
                      then rmatch ci rs (consume st (take (length w) s)) (drop (length w) s)
                      else None) ws"

definition rmatch_at :: "bool \<Rightarrow> item list \<Rightarrow> string \<Rightarrow> (string \<times> string) option" where
  "rmatch_at ci rs s = rmatch ci rs (False, []) s"

text \<open>\<^verbatim>\<open>s.match(re)\<close> without the \<^verbatim>\<open>g\<close> flag, read at \<^verbatim>\<open>[1]\<close>: group 1 of the
  leftmost match, \<open>None\<close> when the pattern matches nowhere.\<close>

fun js_match1 :: "bool \<Rightarrow> item list \<Rightarrow> string \<Rightarrow> string option" where
  "js_match1 ci rs [] = map_option fst (rmatch_at ci rs [])"
| "js_match1 ci rs (x # t) =
     (case rmatch_at ci rs (x # t) of Some r \<Rightarrow> Some (fst r) | None \<Rightarrow> js_match1 ci rs t)"

text \<open>\<^verbatim>\<open>s.replace(re, rep)\<close> with the \<^verbatim>\<open>g\<close> flag: every match, left to right,
  each search starting where the last match ended (one character further after an empty
  match).\<close>

function replace_all :: "bool \<Rightarrow> item list \<Rightarrow> string \<Rightarrow> string \<Rightarrow> string" where
  "replace_all ci rs rep s =
     (case rmatch_at ci rs s of
        Some (g, rest) \<Rightarrow>
          if length rest < length s then rep @ replace_all ci rs rep rest
          else (case s of [] \<Rightarrow> rep | x # t \<Rightarrow> rep @ x # replace_all ci rs rep t)
      | None \<Rightarrow> (case s of [] \<Rightarrow> [] | x # t \<Rightarrow> x # replace_all ci rs rep t))"
  by pat_completeness auto
termination
  by (relation "measure (\<lambda>(ci, rs, rep, s). length s)") auto

declare replace_all.simps [simp del]


section \<open>Data model\<close>

record feed_config =
  feed_name :: string
  feed_url :: string
  feed_icon :: string

text \<open>\<^verbatim>\<open>feedConfig\<close>, as the source declares it.\<close>

definition feedConfig_feeds :: "feed_config list" where
  "feedConfig_feeds =
    [\<lparr>feed_name = ''ACSC Advisories'', feed_url = ''https://www.cyber.gov.au/rss/advisories'',
       feed_icon = ''https://www.cyber.gov.au/themes/custom/cyber/favicon.ico''\<rparr>,
     \<lparr>feed_name = ''ACSC Alerts'', feed_url = ''https://www.cyber.gov.au/rss/alerts'',
       feed_icon = ''https://www.cyber.gov.au/themes/custom/cyber/favicon.ico''\<rparr>,
     \<lparr>feed_name = ''Unit 42 Threat Research'', feed_url = ''https://unit42.paloaltonetworks.com/feed/'',
       feed_icon = ''https://unit42.paloaltonetworks.com/wp-content/uploads/2019/11/cropped-unit42-favicon-32x32.png''\<rparr>,
     \<lparr>feed_name = ''The Hacker News'', feed_url = ''https://feeds.feedburner.com/TheHackersNews'',
       feed_icon = ''https://thehackernews.com/images/favicon.ico''\<rparr>,
     \<lparr>feed_name = ''Krebs on Security'', feed_url = ''https://krebsonsecurity.com/feed/'',
       feed_icon = ''https://krebsonsecurity.com/favicon.ico''\<rparr>,
     \<lparr>feed_name = ''Bleeping Computer'', feed_url = ''https://www.bleepingcomputer.com/feed/'',
       feed_icon = ''https://www.bleepingcomputer.com/favicon.ico''\<rparr>,
     \<lparr>feed_name = ''Dark Reading'', feed_url = ''https://www.darkreading.com/rss_simple.asp'',
       feed_icon = ''https://www.darkreading.com/favicon.ico''\<rparr>]"

definition maxItemsPerFeed :: nat where
  "maxItemsPerFeed = 5"

record feed_item =
  item_id :: string
  item_title :: string
  item_link :: string
  item_description :: string
  item_fullText :: string
  item_pubDate :: string
  item_source :: string
  item_sourceIcon :: string
  item_image :: "string option"
  item_author :: "string option"

record source_status =
  st_success :: bool
  st_itemCount :: nat
  st_error :: "string option"

text \<open>\<^verbatim>\<open>cachedFeeds\<close>: the snapshot. The two objects keyed by feed name are maps.\<close>

record snapshot =
  lastUpdated :: "string option"
  items :: "feed_item list"
  feedStatus :: "string \<rightharpoonup> source_status"
  feedTimestamps :: "string \<rightharpoonup> string"

definition empty_snapshot :: snapshot where
  "empty_snapshot = \<lparr>lastUpdated = None, items = [], feedStatus = Map.empty,
                      feedTimestamps = Map.empty\<rparr>"

section \<open>Environment and state\<close>

text \<open>A thrown \<^verbatim>\<open>Error\<close>, with its message. A function of the source that can throw
  returns \<open>js_error + 'a\<close>; a \<^verbatim>\<open>try/catch\<close> is a case on that sum.\<close>

datatype js_error = JsError string

fun message :: "js_error \<Rightarrow> string" where
  "message (JsError m) = m"

type_synonym bytes = string

text \<open>What \<^verbatim>\<open>await fetch(url, ...)\<close> gives: a rejection (network error, timeout of the
  abort signal, a URL that cannot be fetched), or a response with its \<^verbatim>\<open>ok\<close> flag and
  its body (\<open>None\<close>: reading the body fails).\<close>

datatype fetch_result = Rejected string | Response bool "bytes option"

record article =
  art_content :: "string option"
  art_description :: "string option"
  art_image :: "string option"
  art_author :: "string option"

text \<open>One entry of the feed, as the feed library hands it to \<^verbatim>\<open>parseFeed\<close>.\<close>

record feed_entry =
  ent_title :: "string option"
  ent_link :: "string option"
  ent_description :: "string option"
  ent_content :: "string option"
  ent_published :: "string option"
  ent_updated :: "string option"

record url =
  url_pathname :: string
  url_origin :: string

text \<open>
  The collaborators of the server that are not code of the repository, as parameters:
  the two extractor libraries (\<open>Inl\<close>: the promise rejects; \<open>Inr None\<close>: a null result),
  \<^verbatim>\<open>fetch\<close>, the MD5 digest in hexadecimal, \<^verbatim>\<open>new URL\<close> (\<open>None\<close>: it throws),
  \<^verbatim>\<open>path.extname\<close>, the time value of \<^verbatim>\<open>new Date(s)\<close> (\<open>None\<close>: an invalid date),
  \<^verbatim>\<open>toISOString\<close> of a valid date, the file operations that fail (by file name;
  \<open>feeds.json\<close> is the persisted snapshot), the size of the persisted snapshot and
  \<^verbatim>\<open>formatBytes\<close> (floating point).
\<close>

record env =
  extractFeed :: "string \<Rightarrow> js_error + feed_entry list option"
  extractArticle :: "string \<Rightarrow> js_error + article option"
  fetch :: "string \<Rightarrow> fetch_result"
  md5_hex :: "string \<Rightarrow> string"
  new_URL :: "string \<Rightarrow> url option"
  path_extname :: "string \<Rightarrow> string"
  date_parse :: "string \<Rightarrow> int option"
  toISOString :: "int \<Rightarrow> string"
  write_fails :: "string \<Rightarrow> bool"
  unlink_fails :: "string \<Rightarrow> bool"
  readdir_fails :: bool
  json_size :: "snapshot \<Rightarrow> nat"
  formatBytes :: "nat \<Rightarrow> string"

text \<open>
  The state of the process and of its cache directory: the files of \<^verbatim>\<open>IMAGES_DIR\<close> by
  name (\<open>None\<close>: the directory does not exist), the persisted snapshot
  \<^verbatim>\<open>FEED_CACHE_FILE\<close>, the downloads issued so far (every call of \<^verbatim>\<open>fetch\<close>, in
  order), the clock (\<^verbatim>\<open>Date.now()\<close>), \<^verbatim>\<open>cachedFeeds\<close> and \<^verbatim>\<open>isRefreshing\<close>.
  A file name of the source is a hash or a sanitised feed name plus an extension, so
  \<^verbatim>\<open>path.join(IMAGES_DIR, filename)\<close> is the entry \<open>filename\<close> of the directory.
\<close>

record world =
  images_dir :: "(string \<times> bytes) list option"
  feed_cache_file :: "snapshot option"
  downloads :: "string list"
  clock :: int
  cachedFeeds :: snapshot
  isRefreshing :: bool

definition image_exists :: "world \<Rightarrow> string \<Rightarrow> bool" where
  "image_exists w name =
     (case images_dir w of None \<Rightarrow> False | Some fs \<Rightarrow> map_of fs name \<noteq> None)"

text \<open>\<^verbatim>\<open>fs.writeFileSync(path.join(IMAGES_DIR, name), data)\<close>.\<close>

definition write_image :: "env \<Rightarrow> string \<Rightarrow> bytes \<Rightarrow> world \<Rightarrow> js_error + world" where
  "write_image env name data w =
     (case images_dir w of
        None \<Rightarrow> Inl (JsError ''ENOENT: no such file or directory'')
      | Some fs \<Rightarrow>
          if write_fails env name then Inl (JsError ''write failed'')
          else Inr (w\<lparr>images_dir := Some (AList.update name data fs)\<rparr>))"

section \<open>Image cache\<close>

definition ext_or :: "env \<Rightarrow> string \<Rightarrow> string \<Rightarrow> string" where
  "ext_or env u d =
     (case new_URL env u of
        None \<Rightarrow> d
      | Some parsed \<Rightarrow>
          (let e = path_extname env (url_pathname parsed) in if e = [] then d else e))"

definition urlToFilename :: "env \<Rightarrow> string \<Rightarrow> string" where
  "urlToFilename env u = md5_hex env u @ ext_or env u ''.jpg''"

text \<open>The part of \<^verbatim>\<open>cacheImage\<close> and \<^verbatim>\<open>cacheFavicon\<close> after the file name is known;
  it is the body of their \<^verbatim>\<open>try\<close>, so a throw is \<open>Inl\<close>.\<close>

definition cache_body :: "env \<Rightarrow> string \<Rightarrow> string \<Rightarrow> world \<Rightarrow> (js_error + string option) \<times> world" where
  "cache_body env u filename w =
     (if image_exists w filename then (Inr (Some (''/images/'' @ filename)), w)
      else
        (let w1 = w\<lparr>downloads := downloads w @ [u]\<rparr> in
         case fetch env u of
           Rejected m \<Rightarrow> (Inl (JsError m), w1)
         | Response ok content \<Rightarrow>
             if \<not> ok then (Inr None, w1)
             else (case content of
                     None \<Rightarrow> (Inl (JsError ''body''), w1)
                   | Some buffer \<Rightarrow>
                       (case write_image env filename buffer w1 of
                          Inl e \<Rightarrow> (Inl e, w1)
                        | Inr w2 \<Rightarrow> (Inr (Some (''/images/'' @ filename)), w2)))))"

text \<open>\<^verbatim>\<open>catch (error) { return null; }\<close>\<close>

definition catch_null :: "(js_error + string option) \<times> world \<Rightarrow> string option \<times> world" where
  "catch_null r = (case fst r of Inl e \<Rightarrow> (None, snd r) | Inr v \<Rightarrow> (v, snd r))"

definition cacheImage :: "env \<Rightarrow> string \<Rightarrow> world \<Rightarrow> string option \<times> world" where
  "cacheImage env imageUrl w = catch_null (cache_body env imageUrl (urlToFilename env imageUrl) w)"

definition safeName :: "string \<Rightarrow> string" where
  "safeName feedName = map ascii_lower (map (\<lambda>c. if is_alnum c then c else CHR ''-'') feedName)"

definition faviconFilename :: "env \<Rightarrow> string \<Rightarrow> string \<Rightarrow> string" where
  "faviconFilename env iconUrl feedName = ''favicon-'' @ safeName feedName @ ext_or env iconUrl ''.ico''"

definition cacheFavicon :: "env \<Rightarrow> string \<Rightarrow> string \<Rightarrow> world \<Rightarrow> string option \<times> world" where
  "cacheFavicon env iconUrl feedName w =
     catch_null (cache_body env iconUrl (faviconFilename env iconUrl feedName) w)"


section \<open>Content extractor\<close>

definition newline :: char where
  "newline = CHR 0x0A"

definition tab :: char where
  "tab = CHR 0x09"

definition blank :: char where
  "blank = CHR 0x20"

text \<open>The ten replacements of \<^verbatim>\<open>extractArticleContent\<close>, in the order of the source.\<close>

definition close_p :: "item list" where         \<comment> \<open>\<^verbatim>\<open>/<\/p>/gi\<close>\<close>
  "close_p = lit ''</p>''"

definition open_p :: "item list" where          \<comment> \<open>\<^verbatim>\<open>/<p[^>]*>/gi\<close>\<close>
  "open_p = lit ''<p'' @ [Rep (NCls ''>'') 0 None, One (Ch CHR ''>'')]"

definition br_tag :: "item list" where          \<comment> \<open>\<^verbatim>\<open>/<br\s*\/?>/gi\<close>\<close>
  "br_tag = lit ''<br'' @ [Rep Space 0 None, Rep (Ch CHR ''/'') 0 (Some 1), One (Ch CHR ''>'')]"

definition close_div :: "item list" where       \<comment> \<open>\<^verbatim>\<open>/<\/div>/gi\<close>\<close>
  "close_div = lit ''</div>''"

definition open_div :: "item list" where        \<comment> \<open>\<^verbatim>\<open>/<div[^>]*>/gi\<close>\<close>
  "open_div = lit ''<div'' @ [Rep (NCls ''>'') 0 None, One (Ch CHR ''>'')]"

definition any_tag :: "item list" where         \<comment> \<open>\<^verbatim>\<open>/<[^>]+>/g\<close>\<close>
  "any_tag = [One (Ch CHR ''<''), Rep (NCls ''>'') 1 None, One (Ch CHR ''>'')]"

definition blanks :: "item list" where          \<comment> \<open>\<^verbatim>\<open>/[ \t]+/g\<close>\<close>
  "blanks = [Rep (Cls [blank, tab]) 1 None]"

definition nl_blanks :: "item list" where       \<comment> \<open>\<^verbatim>\<open>/\n[ \t]+/g\<close>\<close>
  "nl_blanks = [One (Ch newline), Rep (Cls [blank, tab]) 1 None]"

definition blanks_nl :: "item list" where       \<comment> \<open>\<^verbatim>\<open>/[ \t]+\n/g\<close>\<close>
  "blanks_nl = [Rep (Cls [blank, tab]) 1 None, One (Ch newline)]"

definition nl3 :: "item list" where             \<comment> \<open>\<^verbatim>\<open>/\n{3,}/g\<close>\<close>
  "nl3 = [Rep (Ch newline) 3 None]"

definition normalize :: "string \<Rightarrow> string" where
  "normalize content =
     trim
      (replace_all False nl3 [newline, newline]
      (replace_all False blanks_nl [newline]
      (replace_all False nl_blanks [newline]
      (replace_all False blanks [blank]
      (replace_all False any_tag [blank]
      (replace_all True open_div []
      (replace_all True close_div [newline]
      (replace_all True br_tag [newline]
      (replace_all True open_p []
      (replace_all True close_p [newline, newline] content))))))))))"

definition truncate2000 :: "string \<Rightarrow> string" where
  "truncate2000 content = (if length content > 2000 then take 2000 content @ ''...'' else content)"

record article_content =
  ac_fullText :: "string option"
  ac_image :: "string option"
  ac_author :: "string option"

definition no_content :: article_content where
  "no_content = \<lparr>ac_fullText = None, ac_image = None, ac_author = None\<rparr>"

definition extractArticleContent :: "env \<Rightarrow> string \<Rightarrow> article_content" where
  "extractArticleContent env articleUrl =
     (case extractArticle env articleUrl of
        Inl e \<Rightarrow> no_content
      | Inr None \<Rightarrow> no_content
      | Inr (Some article) \<Rightarrow>
          (let content = truncate2000 (normalize (or_default (art_content article) []))
           in \<lparr>ac_fullText = or_null (js_or (Some content) (art_description article)),
               ac_image = or_null (art_image article),
               ac_author = or_null (art_author article)\<rparr>))"

section \<open>Feed reader\<close>

definition quotes :: "char list" where
  "quotes = [CHR 0x22, CHR 0x27]"

text \<open>\<^verbatim>\<open>src=["']([^"']+)["']\<close>, the tail of four of the patterns.\<close>

definition quoted_capture :: "item list" where
  "quoted_capture = [One (Cls quotes), GOpen, Rep (NCls quotes) 1 None, GClose, One (Cls quotes)]"

text \<open>Pattern 1 (and the pattern applied to the content field):
  \<^verbatim>\<open>/<img[^>]+src=["']([^"']+)["']/i\<close>\<close>

definition img_src :: "item list" where
  "img_src = lit ''<img'' @ [Rep (NCls ''>'') 1 None] @ lit ''src='' @ quoted_capture"

text \<open>Pattern 2: \<^verbatim>\<open>/<meta[^>]+property=["']og:image["'][^>]+content=["']([^"']+)["']/i\<close>\<close>

definition og_image :: "item list" where
  "og_image = lit ''<meta'' @ [Rep (NCls ''>'') 1 None] @ lit ''property='' @ [One (Cls quotes)]
     @ lit ''og:image'' @ [One (Cls quotes), Rep (NCls ''>'') 1 None] @ lit ''content='' @ quoted_capture"

text \<open>Pattern 3: \<^verbatim>\<open>/<meta[^>]+name=["']twitter:image["'][^>]+content=["']([^"']+)["']/i\<close>\<close>

definition twitter_image :: "item list" where
  "twitter_image = lit ''<meta'' @ [Rep (NCls ''>'') 1 None] @ lit ''name='' @ [One (Cls quotes)]
     @ lit ''twitter:image'' @ [One (Cls quotes), Rep (NCls ''>'') 1 None] @ lit ''content='' @ quoted_capture"

text \<open>Pattern 4:
  \<^verbatim>\<open>/<img[^>]+class=["'][^"']*wp-post-image[^"']*["'][^>]+src=["']([^"']+)["']/i\<close>\<close>

definition wp_post_image :: "item list" where
  "wp_post_image = lit ''<img'' @ [Rep (NCls ''>'') 1 None] @ lit ''class=''
     @ [One (Cls quotes), Rep (NCls quotes) 0 None] @ lit ''wp-post-image''
     @ [Rep (NCls quotes) 0 None, One (Cls quotes), Rep (NCls ''>'') 1 None] @ lit ''src=''
     @ quoted_capture"

text \<open>Pattern 5: \<^verbatim>\<open>/<img[^>]+src=["']([^"']*\.(jpg|jpeg|png|gif|webp))["']/i\<close>\<close>

definition img_ext :: "item list" where
  "img_ext = lit ''<img'' @ [Rep (NCls ''>'') 1 None] @ lit ''src=''
     @ [One (Cls quotes), GOpen, Rep (NCls quotes) 0 None, One (Ch CHR ''.''),
        Alt [''jpg'', ''jpeg'', ''png'', ''gif'', ''webp''], GClose, One (Cls quotes)]"

text \<open>\<^verbatim>\<open>match = s.match(re); if (match && match[1]) ...\<close>: the group, when the pattern
  matches and the group is not empty.\<close>

definition matched :: "item list \<Rightarrow> string \<Rightarrow> string option" where
  "matched re s = or_null (js_match1 True re s)"

text \<open>The nested \<^verbatim>\<open>if\<close>/\<^verbatim>\<open>else\<close> over the description.\<close>

definition description_image :: "string \<Rightarrow> string option" where
  "description_image d =
     (case matched img_src d of Some u \<Rightarrow> Some u
      | None \<Rightarrow>
     (case matched og_image d of Some u \<Rightarrow> Some u
      | None \<Rightarrow>
     (case matched twitter_image d of Some u \<Rightarrow> Some u
      | None \<Rightarrow>
     (case matched wp_post_image d of Some u \<Rightarrow> Some u
      | None \<Rightarrow>
     (case matched img_ext d of Some u \<Rightarrow> Some u
      | None \<Rightarrow> None)))))"

definition entry_image :: "feed_entry \<Rightarrow> string option" where
  "entry_image entry =
     (let image = (if truthy (ent_description entry)
                   then description_image (or_default (ent_description entry) [])
                   else None)
      in if \<not> truthy image \<and> truthy (ent_content entry)
         then (case matched img_src (or_default (ent_content entry) []) of
                 Some u \<Rightarrow> Some u | None \<Rightarrow> image)
         else image)"

record raw_item =
  raw_title :: string
  raw_link :: string
  raw_description :: string
  raw_pubDate :: string
  raw_image :: "string option"

definition parse_entry :: "env \<Rightarrow> world \<Rightarrow> feed_entry \<Rightarrow> raw_item" where
  "parse_entry env w entry =
     \<lparr>raw_title = or_default (ent_title entry) ''No title'',
      raw_link = or_default (ent_link entry) ''#'',
      raw_description = or_default (ent_description entry) [],
      raw_pubDate = or_default (js_or (ent_published entry) (ent_updated entry))
                      (toISOString env (clock w)),
      raw_image = entry_image entry\<rparr>"

definition parseFeed :: "env \<Rightarrow> string \<Rightarrow> world \<Rightarrow> js_error + raw_item list" where
  "parseFeed env feedUrl w =
     (case extractFeed env feedUrl of
        Inl e \<Rightarrow> Inl e
      | Inr None \<Rightarrow> Inr []
      | Inr (Some entries) \<Rightarrow> Inr (map (parse_entry env w) entries))"


section \<open>Feed processor\<close>

text \<open>\<^verbatim>\<open>stripHtml\<close>: tags become a space, white space runs collapse, the ends are trimmed.\<close>

definition spaces :: "item list" where          \<comment> \<open>\<^verbatim>\<open>/\s+/g\<close>\<close>
  "spaces = [Rep Space 1 None]"

definition stripHtml :: "string \<Rightarrow> string" where
  "stripHtml html =
     (if html = [] then []
      else trim (replace_all False spaces [blank] (replace_all False any_tag [blank] html)))"

text \<open>Decimal numerals, for the numbers a template literal prints.\<close>

function show_nat :: "nat \<Rightarrow> string" where
  "show_nat n = (if n < 10 then [char_of (48 + n)]
                 else show_nat (n div 10) @ [char_of (48 + n mod 10)])"
  by pat_completeness auto
termination
  by (relation "measure id") auto

declare show_nat.simps [simp del]

definition show_int :: "int \<Rightarrow> string" where
  "show_int i = (if i < 0 then CHR ''-'' # show_nat (nat (- i)) else show_nat (nat i))"

text \<open>
  The body of the inner \<^verbatim>\<open>try\<close> of \<^verbatim>\<open>processFeed\<close>, for one raw item; \<open>n\<close> is
  \<^verbatim>\<open>items.length\<close>. The object literal is evaluated field by field, so the image
  has been cached when \<^verbatim>\<open>new Date(rawItem.pubDate).toISOString()\<close> throws its
  RangeError on an invalid date. Nothing else in the body throws:
  \<^verbatim>\<open>extractArticleContent\<close> and \<^verbatim>\<open>cacheImage\<close> catch whatever they raise.
\<close>

definition process_item ::
  "env \<Rightarrow> feed_config \<Rightarrow> string option \<Rightarrow> raw_item \<Rightarrow> nat \<Rightarrow> world \<Rightarrow> (js_error + feed_item) \<times> world" where
  "process_item env feed cachedIcon rawItem n w =
     (let articleContent = extractArticleContent env (raw_link rawItem);
          bestImage0 = js_or (ac_image articleContent) (raw_image rawItem);
          (bestImage, cachedImageUrl, w1) =
            (case bestImage0 of
               None \<Rightarrow> (None, None, w)
             | Some b \<Rightarrow>
                 if b = [] then (Some b, None, w)
                 else
                   (let b1 = (if startsWith b ''/''
                              then (case new_URL env (raw_link rawItem) of
                                      None \<Rightarrow> b
                                    | Some parsed \<Rightarrow> url_origin parsed @ b)
                              else b);
                        (c, w') = cacheImage env b1 w
                    in (Some b1, c, w')))
      in case date_parse env (raw_pubDate rawItem) of
           None \<Rightarrow> (Inl (JsError ''Invalid time value''), w1)
         | Some time \<Rightarrow>
             (Inr \<lparr>item_id = feed_name feed @ ''-'' @ show_int (clock w1) @ ''-'' @ show_nat n,
                   item_title = raw_title rawItem,
                   item_link = raw_link rawItem,
                   item_description = take 300 (stripHtml (raw_description rawItem)),
                   item_fullText = or_default (ac_fullText articleContent)
                                     (stripHtml (raw_description rawItem)),
                   item_pubDate = toISOString env time,
                   item_source = feed_name feed,
                   item_sourceIcon = or_default cachedIcon (feed_icon feed),
                   item_image = js_or cachedImageUrl bestImage,
                   item_author = or_null (ac_author articleContent)\<rparr>, w1))"

text \<open>The loop over the limited items: a failed item is skipped (\<^verbatim>\<open>catch (itemError)\<close>).\<close>

fun process_items ::
  "env \<Rightarrow> feed_config \<Rightarrow> string option \<Rightarrow> raw_item list \<Rightarrow> feed_item list \<Rightarrow> world \<Rightarrow> feed_item list \<times> world" where
  "process_items env feed cachedIcon [] acc w = (acc, w)"
| "process_items env feed cachedIcon (rawItem # rest) acc w =
     (case process_item env feed cachedIcon rawItem (length acc) w of
        (Inl itemError, w1) \<Rightarrow> process_items env feed cachedIcon rest acc w1
      | (Inr it, w1) \<Rightarrow> process_items env feed cachedIcon rest (acc @ [it]) w1)"

record feed_result =
  res_success :: bool
  res_feedName :: string
  res_itemCount :: "nat option"
  res_error :: "string option"
  res_items :: "feed_item list"

definition processFeed :: "env \<Rightarrow> feed_config \<Rightarrow> world \<Rightarrow> feed_result \<times> world" where
  "processFeed env feed w =
     (case parseFeed env (feed_url feed) w of
        Inl e \<Rightarrow>
          (\<lparr>res_success = False, res_feedName = feed_name feed, res_itemCount = None,
            res_error = Some (message e), res_items = []\<rparr>, w)
      | Inr rawItems \<Rightarrow>
          (let limitedItems = take maxItemsPerFeed rawItems;
               (cachedIcon, w1) = cacheFavicon env (feed_icon feed) (feed_name feed) w;
               (its, w2) = process_items env feed cachedIcon limitedItems [] w1
           in (\<lparr>res_success = True, res_feedName = feed_name feed,
                 res_itemCount = Some (length its), res_error = None, res_items = its\<rparr>, w2)))"

section \<open>Aggregation cycle\<close>

text \<open>
  \<^verbatim>\<open>Promise.all(feedConfig.feeds.map(feed => processFeed(feed)))\<close>: the results, in the
  order of the feeds. The processors of one cycle share the cache directory; they are
  run here one after the other, in the order of the configuration.
\<close>

fun process_all :: "env \<Rightarrow> feed_config list \<Rightarrow> world \<Rightarrow> feed_result list \<times> world" where
  "process_all env [] w = ([], w)"
| "process_all env (feed # feeds) w =
     (let (r, w1) = processFeed env feed w;
          (rs, w2) = process_all env feeds w1
      in (r # rs, w2))"

text \<open>
  \<^verbatim>\<open>allItems.sort((a, b) => new Date(b.pubDate) - new Date(a.pubDate))\<close>. The comparator
  is a difference of time values; a NaN result counts as 0, as the sort reads it. The
  sort of the language is stable: it is modelled by insertion from the right, which puts
  an element before the first one it does not have to follow.
\<close>

definition by_date_desc :: "env \<Rightarrow> feed_item \<Rightarrow> feed_item \<Rightarrow> int" where
  "by_date_desc env a b =
     (case (date_parse env (item_pubDate b), date_parse env (item_pubDate a)) of
        (Some tb, Some ta) \<Rightarrow> tb - ta
      | _ \<Rightarrow> 0)"

fun insert_by :: "('a \<Rightarrow> 'a \<Rightarrow> int) \<Rightarrow> 'a \<Rightarrow> 'a list \<Rightarrow> 'a list" where
  "insert_by cmp x [] = [x]"
| "insert_by cmp x (y # ys) = (if cmp x y \<le> 0 then x # y # ys else y # insert_by cmp x ys)"

definition js_sort :: "('a \<Rightarrow> 'a \<Rightarrow> int) \<Rightarrow> 'a list \<Rightarrow> 'a list" where
  "js_sort cmp xs = foldr (insert_by cmp) xs []"

text \<open>The loop over the results: the two maps and the merged items.\<close>

fun collect ::
  "env \<Rightarrow> world \<Rightarrow> feed_result list \<Rightarrow> (string \<rightharpoonup> source_status) \<times> (string \<rightharpoonup> string) \<times> feed_item list
     \<Rightarrow> (string \<rightharpoonup> source_status) \<times> (string \<rightharpoonup> string) \<times> feed_item list" where
  "collect env w [] acc = acc"
| "collect env w (r # rs) (statuses, timestamps, allItems) =
     collect env w rs
       (statuses(res_feedName r \<mapsto>
           \<lparr>st_success = res_success r, st_itemCount = length (res_items r),
            st_error = or_null (res_error r)\<rparr>),
        timestamps(res_feedName r \<mapsto> toISOString env (clock w)),
        allItems @ res_items r)"

text \<open>\<^verbatim>\<open>fs.writeFileSync(FEED_CACHE_FILE, ...)\<close> in its \<^verbatim>\<open>try\<close>: a failure is logged only.\<close>

definition save_cache :: "env \<Rightarrow> world \<Rightarrow> world" where
  "save_cache env w =
     (if write_fails env ''feeds.json'' then w
      else w\<lparr>feed_cache_file := Some (cachedFeeds w)\<rparr>)"

text \<open>\<^verbatim>\<open>fetchAllFeeds\<close> after its guard, from \<^verbatim>\<open>isRefreshing = true\<close> to the return.\<close>

definition run_cycle :: "env \<Rightarrow> feed_config list \<Rightarrow> world \<Rightarrow> snapshot \<times> world" where
  "run_cycle env feeds w =
     (let w0 = w\<lparr>isRefreshing := True\<rparr>;
          (results, w1) = process_all env feeds w0;
          (statuses, timestamps, allItems) =
             collect env w1 results (Map.empty, Map.empty, []);
          sorted_items = js_sort (by_date_desc env) allItems;
          w2 = w1\<lparr>cachedFeeds := \<lparr>lastUpdated = Some (toISOString env (clock w1)),
                                    items = sorted_items,
                                    feedStatus = statuses,
                                    feedTimestamps = timestamps\<rparr>\<rparr>;
          w3 = (save_cache env w2)\<lparr>isRefreshing := False\<rparr>
      in (cachedFeeds w3, w3))"

definition fetchAllFeeds :: "env \<Rightarrow> world \<Rightarrow> snapshot \<times> world" where
  "fetchAllFeeds env w =
     (if isRefreshing w then (cachedFeeds w, w)
      else run_cycle env feedConfig_feeds w)"

section \<open>Cache store and HTTP routes\<close>

record cache_stats =
  stat_feeds :: nat
  stat_articles :: nat
  stat_images :: nat
  stat_cacheSize :: string
  stat_lastUpdated :: string

text \<open>\<^verbatim>\<open>getDirectorySize(CACHE_DIR)\<close>: the persisted snapshot and the images. A
  directory that cannot be read counts as 0.\<close>

definition getDirectorySize :: "env \<Rightarrow> world \<Rightarrow> nat" where
  "getDirectorySize env w =
     (if readdir_fails env then 0
      else (case feed_cache_file w of None \<Rightarrow> 0 | Some s \<Rightarrow> json_size env s)
         + (case images_dir w of None \<Rightarrow> 0 | Some fs \<Rightarrow> sum_list (map (\<lambda>f. length (snd f)) fs)))"

definition getCacheStats :: "env \<Rightarrow> world \<Rightarrow> cache_stats" where
  "getCacheStats env w =
     \<lparr>stat_feeds = length feedConfig_feeds,
      stat_articles = length (items (cachedFeeds w)),
      stat_images = (case images_dir w of
                       None \<Rightarrow> 0
                     | Some fs \<Rightarrow> if readdir_fails env then 0 else length fs),
      stat_cacheSize = formatBytes env (getDirectorySize env w),
      stat_lastUpdated = or_default (lastUpdated (cachedFeeds w)) ''Never''\<rparr>"

datatype body =
    ErrorBody string                                              \<comment> \<open>\<^verbatim>\<open>{error}\<close>\<close>
  | MessageBody string                                            \<comment> \<open>\<^verbatim>\<open>{message}\<close>\<close>
  | StatusBody string cache_stats "string \<rightharpoonup> source_status"      \<comment> \<open>\<^verbatim>\<open>{status, ...stats, feedStatus}\<close>\<close>

record response =
  resp_status :: nat
  resp_body :: body

text \<open>\<^verbatim>\<open>GET /api/status\<close>\<close>

definition status_route :: "env \<Rightarrow> world \<Rightarrow> response" where
  "status_route env w =
     \<lparr>resp_status = 200,
      resp_body = StatusBody ''running'' (getCacheStats env w) (feedStatus (cachedFeeds w))\<rparr>"

text \<open>
  \<^verbatim>\<open>POST /api/refresh\<close>. The cycle is started and not awaited: when the response is
  sent, \<^verbatim>\<open>fetchAllFeeds\<close> has run up to its first \<^verbatim>\<open>await\<close>, so the flag is set; the
  rest of the cycle (\<open>run_cycle\<close>) completes later.
\<close>

definition refresh_route :: "env \<Rightarrow> world \<Rightarrow> response \<times> world" where
  "refresh_route env w =
     (if isRefreshing w
      then (\<lparr>resp_status = 409, resp_body = ErrorBody ''Refresh already in progress''\<rparr>, w)
      else (\<lparr>resp_status = 200, resp_body = MessageBody ''Refresh started''\<rparr>,
            w\<lparr>isRefreshing := True\<rparr>))"

text \<open>The loop of \<^verbatim>\<open>fs.unlinkSync\<close> over the files of the image directory: the first
  failure throws and leaves the files not yet visited.\<close>

fun unlink_all :: "env \<Rightarrow> (string \<times> bytes) list \<Rightarrow> js_error option \<times> (string \<times> bytes) list" where
  "unlink_all env [] = (None, [])"
| "unlink_all env (f # fs) =
     (if unlink_fails env (fst f) then (Some (JsError ''unlink failed''), f # fs)
      else unlink_all env fs)"

text \<open>The body of the \<^verbatim>\<open>try\<close> of \<^verbatim>\<open>DELETE /api/cache\<close>, up to the reset of the
  snapshot.\<close>

definition clear_cache :: "env \<Rightarrow> world \<Rightarrow> js_error option \<times> world" where
  "clear_cache env w =
     (let (e1, w1) =
            (case images_dir w of
               None \<Rightarrow> (None, w)
             | Some fs \<Rightarrow>
                 if readdir_fails env then (Some (JsError ''readdir failed''), w)
                 else (let (e, left) = unlink_all env fs
                       in (e, w\<lparr>images_dir := Some left\<rparr>)))
      in case e1 of
           Some e \<Rightarrow> (Some e, w1)
         | None \<Rightarrow>
             (case feed_cache_file w1 of
                None \<Rightarrow> (None, w1\<lparr>cachedFeeds := empty_snapshot\<rparr>)
              | Some s \<Rightarrow>
                  if unlink_fails env ''feeds.json'' then (Some (JsError ''unlink failed''), w1)
                  else (None, w1\<lparr>feed_cache_file := None, cachedFeeds := empty_snapshot\<rparr>)))"

definition delete_route :: "env \<Rightarrow> world \<Rightarrow> response \<times> world" where
  "delete_route env w =
     (case clear_cache env w of
        (None, w1) \<Rightarrow> (\<lparr>resp_status = 200, resp_body = MessageBody ''Cache cleared successfully''\<rparr>, w1)
      | (Some e, w1) \<Rightarrow> (\<lparr>resp_status = 500, resp_body = ErrorBody (message e)\<rparr>, w1))"


section \<open>IP allow list\<close>

text \<open>\<^verbatim>\<open>ALLOWED_IPS\<close>: the environment variable, or the loopback default, split at
  commas and trimmed.\<close>

definition allowed_ips_of :: "string option \<Rightarrow> string list" where
  "allowed_ips_of v = map trim (split_on CHR '','' (or_default v ''127.0.0.1,::1,localhost''))"

definition is_loopback_alias :: "string \<Rightarrow> bool" where
  "is_loopback_alias ip = (ip = ''::1'' \<or> ip = ''127.0.0.1'' \<or> ip = ''localhost'')"

text \<open>The test of one CIDR entry: \<^verbatim>\<open>[network, prefix] = allowed.split('/')\<close> and
  \<^verbatim>\<open>ip.startsWith(network.split('.').slice(0, parseInt(prefix) / 8).join('.'))\<close>.\<close>

definition cidr_prefix :: "string \<Rightarrow> string" where
  "cidr_prefix allowed =
     (let parts = split_on CHR ''/'' allowed;
          network = parts ! 0;
          prefix = parts ! 1
      in join_with ''.'' (slice0 (split_on CHR ''.'' network)
                            (map_option trunc_div8 (parseInt prefix))))"

definition cidr_match :: "string \<Rightarrow> string \<Rightarrow> bool" where
  "cidr_match allowed ip = (CHR ''/'' \<in> set allowed \<and> startsWith ip (cidr_prefix allowed))"

definition isIpAllowed :: "string list \<Rightarrow> string \<Rightarrow> bool" where
  "isIpAllowed ALLOWED_IPS ip =
     (if ''*'' \<in> set ALLOWED_IPS then True
      else if ip \<in> set ALLOWED_IPS then True
      else if is_loopback_alias ip then list_ex is_loopback_alias ALLOWED_IPS
      else list_ex (\<lambda>allowed. cidr_match allowed ip) ALLOWED_IPS)"

record request =
  req_path :: string
  hdr_x_forwarded_for :: "string option"
  hdr_x_real_ip :: "string option"
  connection_remoteAddress :: "string option"
  socket_remoteAddress :: "string option"
  req_ip :: "string option"

definition getClientIp :: "request \<Rightarrow> string" where
  "getClientIp req =
     or_default
       (js_or (js_or (js_or (js_or
          (map_option (\<lambda>h. trim (hd (split_on CHR '','' h))) (hdr_x_forwarded_for req))
          (hdr_x_real_ip req))
          (connection_remoteAddress req))
          (socket_remoteAddress req))
          (req_ip req))
       ''unknown''"

text \<open>What the middleware does with a request: it calls \<^verbatim>\<open>next()\<close> or sends a response.\<close>

datatype gate = Next | Respond response

definition static_path :: "string \<Rightarrow> bool" where
  "static_path p = (startsWith p ''/images/'' \<or> endsWith p ''.html''
                    \<or> endsWith p ''.css'' \<or> endsWith p ''.js'')"

definition ipAllowListMiddleware :: "string list \<Rightarrow> request \<Rightarrow> gate" where
  "ipAllowListMiddleware ALLOWED_IPS req =
     (if static_path (req_path req) then Next
      else if \<not> isIpAllowed ALLOWED_IPS (getClientIp req)
           then Respond \<lparr>resp_status = 403, resp_body = ErrorBody ''Access denied''\<rparr>
      else Next)"

section \<open>Example inputs\<close>

text \<open>An environment in which the network answers every download, no feed can be read
  and no file operation fails, and the state of a server that has just started.\<close>

definition example_env :: env where
  "example_env =
     \<lparr>extractFeed = (\<lambda>u. Inl (JsError ''Request timed out'')),
      extractArticle = (\<lambda>u. Inr None),
      fetch = (\<lambda>u. Response True (Some ''GIF89a'')),
      md5_hex = (\<lambda>u. ''0cc175b9c0f1b6a831c399e269772661''),
      new_URL = (\<lambda>u. None),
      path_extname = (\<lambda>p. []),
      date_parse = (\<lambda>s. None),
      toISOString = (\<lambda>t. ''1970-01-01T00:00:00.000Z''),
      write_fails = (\<lambda>n. False),
      unlink_fails = (\<lambda>n. False),
      readdir_fails = False,
      json_size = (\<lambda>s. 0),
      formatBytes = (\<lambda>n. ''0 B'')\<rparr>"

definition example_world :: world where
  "example_world =
     \<lparr>images_dir = Some [], feed_cache_file = None, downloads = [], clock = 0,
      cachedFeeds = empty_snapshot, isRefreshing = False\<rparr>"

text \<open>
  A cycle in which three sources publish one entry each, dated T, T - 1 day and
  T + 1 hour, and the other sources time out.
\<close>

definition dated_entry :: "string \<Rightarrow> string \<Rightarrow> feed_entry" where
  "dated_entry title published =
     \<lparr>ent_title = Some title, ent_link = None, ent_description = None, ent_content = None,
      ent_published = Some published, ent_updated = None\<rparr>"

definition cycle_env :: env where
  "cycle_env = example_env
     \<lparr>extractFeed := (\<lambda>u.
         if u = ''https://www.cyber.gov.au/rss/advisories''
           then Inr (Some [dated_entry ''A'' ''Thu, 02 May 2024 00:00:00 GMT''])
         else if u = ''https://www.cyber.gov.au/rss/alerts''
           then Inr (Some [dated_entry ''B'' ''Wed, 01 May 2024 00:00:00 GMT''])
         else if u = ''https://unit42.paloaltonetworks.com/feed/''
           then Inr (Some [dated_entry ''C'' ''Thu, 02 May 2024 01:00:00 GMT''])
         else Inl (JsError ''Request timed out'')),
      fetch := (\<lambda>u. Rejected ''fetch failed''),
      date_parse := (\<lambda>s.
         if s = ''Thu, 02 May 2024 00:00:00 GMT'' \<or> s = ''2024-05-02T00:00:00.000Z'' then Some 1714608000000
         else if s = ''Wed, 01 May 2024 00:00:00 GMT'' \<or> s = ''2024-05-01T00:00:00.000Z'' then Some 1714521600000
         else if s = ''Thu, 02 May 2024 01:00:00 GMT'' \<or> s = ''2024-05-02T01:00:00.000Z'' then Some 1714611600000
         else None),
      toISOString := (\<lambda>t.
         if t = 1714608000000 then ''2024-05-02T00:00:00.000Z''
         else if t = 1714521600000 then ''2024-05-01T00:00:00.000Z''
         else if t = 1714611600000 then ''2024-05-02T01:00:00.000Z''
         else ''1970-01-01T00:00:00.000Z'')\<rparr>"

text \<open>A server that holds one article, its image and one favicon.\<close>

definition stale_item :: feed_item where
  "stale_item = \<lparr>item_id = ''ACSC Alerts-1714608000000-0'', item_title = ''B'', item_link = ''#'',
     item_description = [], item_fullText = [], item_pubDate = ''2024-05-01T00:00:00.000Z'',
     item_source = ''ACSC Alerts'', item_sourceIcon = ''https://www.cyber.gov.au/themes/custom/cyber/favicon.ico'',
     item_image = Some ''/images/0cc175b9c0f1b6a831c399e269772661.jpg'', item_author = None\<rparr>"

definition filled_world :: world where
  "filled_world =
     \<lparr>images_dir = Some [(''0cc175b9c0f1b6a831c399e269772661.jpg'', ''GIF89a''), (''favicon-acsc-alerts.ico'', ''ICO'')],
      feed_cache_file = Some \<lparr>lastUpdated = Some ''2024-05-02T00:00:00.000Z'', items = [stale_item],
                              feedStatus = Map.empty, feedTimestamps = Map.empty\<rparr>,
      downloads = [], clock = 1714608000000,
      cachedFeeds = \<lparr>lastUpdated = Some ''2024-05-02T00:00:00.000Z'', items = [stale_item],
                      feedStatus = Map.empty, feedTimestamps = Map.empty\<rparr>,
      isRefreshing = False\<rparr>"

section \<open>Predicates and inputs of the claims\<close>

text \<open>The failure modes of a download: the request is rejected (network error, timeout,
  a URL that cannot be fetched), the response is not 2xx, its body cannot be read, or the
  file cannot be written.\<close>

definition download_fails :: "env \<Rightarrow> string \<Rightarrow> string \<Rightarrow> world \<Rightarrow> bool" where
  "download_fails env u filename w =
     (case fetch env u of
        Rejected m \<Rightarrow> True
      | Response ok content \<Rightarrow>
          \<not> ok \<or> content = None \<or> write_fails env filename \<or> images_dir w = None)"

text \<open>A request for \<^verbatim>\<open>/api/feeds\<close> from the loopback address.\<close>

definition loopback_request :: request where
  "loopback_request =
     \<lparr>req_path = ''/api/feeds'', hdr_x_forwarded_for = None, hdr_x_real_ip = None,
      connection_remoteAddress = Some ''127.0.0.1'', socket_remoteAddress = None,
      req_ip = None\<rparr>"




text \<open>A file operation of the clear fails: the image directory cannot be listed, one
  of its files cannot be removed, or the persisted snapshot cannot be removed.\<close>

definition clear_fails :: "env \<Rightarrow> world \<Rightarrow> bool" where
  "clear_fails env w =
     ((case images_dir w of
         None \<Rightarrow> False
       | Some fs \<Rightarrow> readdir_fails env \<or> list_ex (\<lambda>f. unlink_fails env (fst f)) fs)
      \<or> (feed_cache_file w \<noteq> None \<and> unlink_fails env ''feeds.json''))"

text \<open>What \<^verbatim>\<open>processFeed\<close> returns from its outer \<^verbatim>\<open>catch\<close>.\<close>

definition failed_result :: "feed_config \<Rightarrow> js_error \<Rightarrow> feed_result" where
  "failed_result feed e = \<lparr>res_success = False, res_feedName = feed_name feed, res_itemCount = None,
            res_error = Some (message e), res_items = []\<rparr>"

text \<open>
  The ISO string of a date that was parsed is parsed back to the same time value: an
  assumption on the runtime's \<^verbatim>\<open>Date\<close>. An item is dated when its \<open>pubDate\<close> is a
  valid date; \<open>merged_items\<close> are the items of all results of a cycle, in the order of
  the feeds, before the sort.
\<close>

definition iso_roundtrip :: "env \<Rightarrow> bool" where
  "iso_roundtrip env = (\<forall>s t. date_parse env s = Some t \<longrightarrow> date_parse env (toISOString env t) = Some t)"

definition dated :: "env \<Rightarrow> feed_item \<Rightarrow> bool" where
  "dated env it = (date_parse env (item_pubDate it) \<noteq> None)"

definition time_of :: "env \<Rightarrow> feed_item \<Rightarrow> int" where
  "time_of env it = (case date_parse env (item_pubDate it) of Some t \<Rightarrow> t | None \<Rightarrow> 0)"

definition merged_items :: "env \<Rightarrow> feed_config list \<Rightarrow> world \<Rightarrow> feed_item list" where
  "merged_items env feeds w =
     concat (map res_items (fst (process_all env feeds (w\<lparr>isRefreshing := True\<rparr>))))"

text \<open>
  The chain as the specification words it: six matchers, the first five on the
  description and the sixth (the pattern of the first) on the content field, tried in
  this order; the first match is taken, and the result is null when none matches.
\<close>

definition image_matchers :: "(feed_entry \<Rightarrow> string option) list" where
  "image_matchers =
     [\<lambda>e. Option.bind (ent_description e) (matched img_src),
      \<lambda>e. Option.bind (ent_description e) (matched og_image),
      \<lambda>e. Option.bind (ent_description e) (matched twitter_image),
      \<lambda>e. Option.bind (ent_description e) (matched wp_post_image),
      \<lambda>e. Option.bind (ent_description e) (matched img_ext),
      \<lambda>e. Option.bind (ent_content e) (matched img_src)]"

definition first_match :: "feed_entry \<Rightarrow> string option" where
  "first_match e = first_some (\<lambda>m. m e) image_matchers"

text \<open>A description with an Open Graph tag and a standard image tag of another URL.\<close>

definition both_tags :: string where
  \<open>both_tags = ''<meta property="og:image" content="/og.png"><img src="/a.jpg">''\<close>

text \<open>
  A body with no tag and no white space that the normalisation would change: no
  \<open><\<close>, no tab, no blank next to a blank or to a line break, no three line breaks in a
  row (\<open>clean\<close>), and no white space at either end.
\<close>

fun run_start :: "string \<Rightarrow> bool" where
  "run_start (a # b # t) =
     ((a = blank \<and> (b = blank \<or> b = newline))
      \<or> (a = newline \<and> b = blank)
      \<or> (a = newline \<and> b = newline \<and> (case t of [] \<Rightarrow> False | c # r \<Rightarrow> c = newline)))"
| "run_start [a] = False"
| "run_start [] = False"

fun clean :: "string \<Rightarrow> bool" where
  "clean [] = True"
| "clean (x # t) = (x \<noteq> CHR ''<'' \<and> x \<noteq> tab \<and> \<not> run_start (x # t) \<and> clean t)"

definition plain_body :: "string \<Rightarrow> bool" where
  "plain_body s = (clean s \<and> (case s of [] \<Rightarrow> True | x # t \<Rightarrow> \<not> js_space x \<and> \<not> js_space (last s)))"

section \<open>At most one cycle\<close>

text \<open>
  Claim C2. While a cycle is running (\<^verbatim>\<open>isRefreshing\<close> is set), a call of
  \<^verbatim>\<open>fetchAllFeeds\<close> returns the current snapshot and changes nothing: no feed is
  processed, no download is issued, the flag stays set; and \<^verbatim>\<open>POST /api/refresh\<close>
  answers 409 with an error body and changes nothing either.
\<close>

theorem refresh_while_running:
  "isRefreshing w \<Longrightarrow>
     fetchAllFeeds env w = (cachedFeeds w, w) \<and>
     refresh_route env w =
       (\<lparr>resp_status = 409, resp_body = ErrorBody ''Refresh already in progress''\<rparr>, w)"
  by (simp add: fetchAllFeeds_def refresh_route_def)

theorem refresh_while_running_witness:
  "isRefreshing (example_world\<lparr>isRefreshing := True\<rparr>) \<and>
   fetchAllFeeds example_env (example_world\<lparr>isRefreshing := True\<rparr>)
     = (empty_snapshot, example_world\<lparr>isRefreshing := True\<rparr>) \<and>
   resp_status (fst (refresh_route example_env (example_world\<lparr>isRefreshing := True\<rparr>))) = 409"
  using refresh_while_running [of "example_world\<lparr>isRefreshing := True\<rparr>" example_env]
  by (simp add: example_world_def)

section \<open>Image cache: idempotence and totality\<close>

lemma image_exists_write:
  "write_image env name data w = Inr w' \<Longrightarrow> image_exists w' name"
  by (auto simp: write_image_def image_exists_def update_conv' split: option.splits if_splits)

lemma cache_body_cached:
  "image_exists w f \<Longrightarrow> cache_body env u f w = (Inr (Some (''/images/'' @ f)), w)"
  by (simp add: cache_body_def)

lemma cache_body_Some:
  "cache_body env u f w = (Inr (Some r), w1) \<Longrightarrow> r = ''/images/'' @ f \<and> image_exists w1 f"
  by (auto simp: cache_body_def Let_def image_exists_write
      split: if_splits fetch_result.splits option.splits sum.splits)

lemma catch_null_Some:
  "catch_null r = (Some x, w1) \<Longrightarrow> r = (Inr (Some x), w1)"
  by (cases r) (auto simp: catch_null_def split: sum.splits)

text \<open>
  Claim C3. When a call of \<^verbatim>\<open>cacheImage\<close> has returned a local reference, a second
  call with the same URL, in the state the first one left, returns the same reference
  and leaves the state as it is: in particular the list of downloads does not grow.
\<close>

theorem cacheImage_idempotent:
  assumes "cacheImage env imageUrl w = (Some r, w1)"
  shows "cacheImage env imageUrl w1 = (Some r, w1)
         \<and> downloads (snd (cacheImage env imageUrl w1)) = downloads w1"
proof -
  from assms have "cache_body env imageUrl (urlToFilename env imageUrl) w = (Inr (Some r), w1)"
    unfolding cacheImage_def by (rule catch_null_Some)
  then have "r = ''/images/'' @ urlToFilename env imageUrl"
    and "image_exists w1 (urlToFilename env imageUrl)"
    using cache_body_Some by blast+
  then show ?thesis
    by (simp add: cacheImage_def cache_body_cached catch_null_def)
qed

theorem cacheImage_idempotent_witness:
  "cacheImage example_env ''https://example.org/a.png'' example_world
     = (Some ''/images/0cc175b9c0f1b6a831c399e269772661.jpg'',
        example_world\<lparr>downloads := [''https://example.org/a.png''],
                       images_dir := Some [(''0cc175b9c0f1b6a831c399e269772661.jpg'', ''GIF89a'')]\<rparr>)
   \<and> cacheImage example_env ''https://example.org/a.png''
        (example_world\<lparr>downloads := [''https://example.org/a.png''],
                       images_dir := Some [(''0cc175b9c0f1b6a831c399e269772661.jpg'', ''GIF89a'')]\<rparr>)
     = (Some ''/images/0cc175b9c0f1b6a831c399e269772661.jpg'',
        example_world\<lparr>downloads := [''https://example.org/a.png''],
                       images_dir := Some [(''0cc175b9c0f1b6a831c399e269772661.jpg'', ''GIF89a'')]\<rparr>)"
proof -
  have first: "cacheImage example_env ''https://example.org/a.png'' example_world
     = (Some ''/images/0cc175b9c0f1b6a831c399e269772661.jpg'',
        example_world\<lparr>downloads := [''https://example.org/a.png''],
                       images_dir := Some [(''0cc175b9c0f1b6a831c399e269772661.jpg'', ''GIF89a'')]\<rparr>)"
    by (simp add: cacheImage_def cache_body_def catch_null_def urlToFilename_def ext_or_def
        example_env_def example_world_def image_exists_def write_image_def)
  from cacheImage_idempotent [OF first] first show ?thesis by simp
qed

lemma cache_body_result:
  "fst (catch_null (cache_body env u f w)) =
     (if image_exists w f \<or> \<not> download_fails env u f w then Some (''/images/'' @ f) else None)"
  by (auto simp: cache_body_def catch_null_def download_fails_def write_image_def Let_def
      image_exists_def split: fetch_result.splits option.splits)

text \<open>
  Claim C10. \<^verbatim>\<open>cacheImage\<close> and \<^verbatim>\<open>cacheFavicon\<close> return null or the local reference
  of the deterministic file name, for every URL, state and environment; an exception
  raised in their body is caught and becomes null. When the asset is not cached and the
  download fails in any of its modes, the result is null.
\<close>

theorem cache_never_throws:
  "(fst (cacheImage env u w) = None
      \<or> fst (cacheImage env u w) = Some (''/images/'' @ urlToFilename env u))
   \<and> (fst (cacheFavicon env u n w) = None
      \<or> fst (cacheFavicon env u n w) = Some (''/images/'' @ faviconFilename env u n))
   \<and> (\<forall>e w1. cache_body env u (urlToFilename env u) w = (Inl e, w1)
         \<longrightarrow> cacheImage env u w = (None, w1))
   \<and> (\<forall>e w1. cache_body env u (faviconFilename env u n) w = (Inl e, w1)
         \<longrightarrow> cacheFavicon env u n w = (None, w1))
   \<and> (\<not> image_exists w (urlToFilename env u)
        \<longrightarrow> download_fails env u (urlToFilename env u) w
        \<longrightarrow> fst (cacheImage env u w) = None)
   \<and> (\<not> image_exists w (faviconFilename env u n)
        \<longrightarrow> download_fails env u (faviconFilename env u n) w
        \<longrightarrow> fst (cacheFavicon env u n w) = None)"
proof -
  have "\<And>f e w1. cache_body env u f w = (Inl e, w1) \<Longrightarrow> catch_null (cache_body env u f w) = (None, w1)"
    by (simp add: catch_null_def)
  then show ?thesis
    by (simp add: cacheImage_def cacheFavicon_def cache_body_result)
qed

theorem cache_never_throws_witness:
  "\<not> image_exists example_world (urlToFilename (example_env\<lparr>fetch := \<lambda>u. Rejected ''The operation was aborted due to timeout''\<rparr>) ''https://example.org/a.png'')
   \<and> download_fails (example_env\<lparr>fetch := \<lambda>u. Rejected ''The operation was aborted due to timeout''\<rparr>)
        ''https://example.org/a.png'' ''0cc175b9c0f1b6a831c399e269772661.jpg'' example_world
   \<and> fst (cacheImage (example_env\<lparr>fetch := \<lambda>u. Rejected ''The operation was aborted due to timeout''\<rparr>)
        ''https://example.org/a.png'' example_world) = None
   \<and> fst (cacheFavicon (example_env\<lparr>fetch := \<lambda>u. Rejected ''The operation was aborted due to timeout''\<rparr>)
        ''https://example.org/a.png'' ''ACSC Alerts'' example_world) = None"
  using cache_never_throws [of "example_env\<lparr>fetch := \<lambda>u. Rejected ''The operation was aborted due to timeout''\<rparr>"
      "''https://example.org/a.png''" example_world "''ACSC Alerts''"]
  by (simp add: image_exists_def download_fails_def example_env_def example_world_def urlToFilename_def ext_or_def)

section \<open>Access gate\<close>

lemma isIpAllowed_iff:
  "isIpAllowed A ip \<longleftrightarrow>
     ''*'' \<in> set A \<or> ip \<in> set A
     \<or> (is_loopback_alias ip \<and> (\<exists>a \<in> set A. is_loopback_alias a))
     \<or> (\<not> is_loopback_alias ip \<and> (\<exists>a \<in> set A. cidr_match a ip))"
  by (auto simp: isIpAllowed_def list_ex_iff)

lemma cidr_match_loopback: "cidr_match ''127.0.0.0/8'' ''127.0.0.1''"
  by (simp add: cidr_match_def cidr_prefix_def startsWith_def parseInt_def slice0_def
      trunc_div8_def digit_val_def js_space_def)

text \<open>
  Claim C9, at the input where the code leaves it. With \<^verbatim>\<open>ALLOWED_IPS=127.0.0.0/8\<close>
  the address 127.0.0.1 passes the CIDR test of the configured entry, and the path is
  not a static one; the middleware still answers 403, because the branch for the loopback
  aliases returns before the CIDR entries are tried.
\<close>

theorem loopback_cidr_blocked:
  "\<not> static_path (req_path loopback_request)
   \<and> getClientIp loopback_request = ''127.0.0.1''
   \<and> cidr_match ''127.0.0.0/8'' ''127.0.0.1''
   \<and> ipAllowListMiddleware (allowed_ips_of (Some ''127.0.0.0/8'')) loopback_request
        = Respond \<lparr>resp_status = 403, resp_body = ErrorBody ''Access denied''\<rparr>"
  by (simp add: cidr_match_loopback loopback_request_def static_path_def startsWith_def
      endsWith_def getClientIp_def js_or_def truthy_def or_default_def
      ipAllowListMiddleware_def isIpAllowed_def is_loopback_alias_def allowed_ips_of_def
      trim_def js_space_def)

section \<open>Unparseable publish dates\<close>

lemma process_item_invalid_date:
  "date_parse env (raw_pubDate r) = None \<Longrightarrow>
     \<exists>e w1. process_item env feed icon r n w = (Inl e, w1)"
  by (simp add: process_item_def Let_def split: prod.splits option.splits)





section \<open>Clearing the cache\<close>

lemma unlink_all_ok:
  "unlink_all env fs = (None, left) \<Longrightarrow> left = [] \<and> \<not> list_ex (\<lambda>f. unlink_fails env (fst f)) fs"
  by (induction fs) (auto split: if_splits)

lemma unlink_all_error:
  "unlink_all env fs = (Some e, left) \<Longrightarrow> list_ex (\<lambda>f. unlink_fails env (fst f)) fs"
  by (induction fs) (auto split: if_splits)

lemma clear_cache_fails: "fst (clear_cache env w) \<noteq> None \<longleftrightarrow> clear_fails env w"
  by (auto simp: clear_cache_def clear_fails_def Let_def split: option.splits prod.splits
      dest: unlink_all_ok unlink_all_error)

lemma clear_cache_cleared:
  assumes "clear_cache env w = (None, w1)"
  shows "(images_dir w1 = None \<or> images_dir w1 = Some []) \<and> feed_cache_file w1 = None
         \<and> cachedFeeds w1 = empty_snapshot"
  using assms
  by (auto simp: clear_cache_def Let_def split: option.splits prod.splits if_splits
      dest: unlink_all_ok)

text \<open>
  Claim C8. When no file operation fails, \<^verbatim>\<open>DELETE /api/cache\<close> answers with its
  message, leaves no cached asset and no persisted snapshot, resets the snapshot in
  memory, and \<^verbatim>\<open>GET /api/status\<close> on the state it leaves reports 0 images, 0 articles
  and \<^verbatim>\<open>lastUpdated: "Never"\<close>. When a file operation fails, the route answers 500 with
  an error body.
\<close>

theorem cache_clear:
  "(if clear_fails env w
    then resp_status (fst (delete_route env w)) = 500
         \<and> (\<exists>m. resp_body (fst (delete_route env w)) = ErrorBody m)
    else fst (delete_route env w)
           = \<lparr>resp_status = 200, resp_body = MessageBody ''Cache cleared successfully''\<rparr>
         \<and> (images_dir (snd (delete_route env w)) = None \<or> images_dir (snd (delete_route env w)) = Some [])
         \<and> feed_cache_file (snd (delete_route env w)) = None
         \<and> cachedFeeds (snd (delete_route env w)) = empty_snapshot
         \<and> stat_images (getCacheStats env (snd (delete_route env w))) = 0
         \<and> stat_articles (getCacheStats env (snd (delete_route env w))) = 0
         \<and> stat_lastUpdated (getCacheStats env (snd (delete_route env w))) = ''Never''
         \<and> (\<exists>st. resp_body (status_route env (snd (delete_route env w)))
                = StatusBody ''running'' st Map.empty
              \<and> stat_images st = 0 \<and> stat_articles st = 0 \<and> stat_lastUpdated st = ''Never''))"
proof (cases "clear_cache env w")
  case (Pair e w1)
  show ?thesis
  proof (cases e)
    case None
    with Pair have c: "clear_cache env w = (None, w1)" by simp
    then have nf: "\<not> clear_fails env w" using clear_cache_fails [of env w] by simp
    from clear_cache_cleared [OF c] have cl: "(images_dir w1 = None \<or> images_dir w1 = Some [])"
      "feed_cache_file w1 = None" "cachedFeeds w1 = empty_snapshot" by auto
    have "stat_images (getCacheStats env w1) = 0" using cl(1)
      by (auto simp: getCacheStats_def)
    then show ?thesis using nf c cl
      by (auto simp: delete_route_def status_route_def getCacheStats_def empty_snapshot_def or_default_def)
  next
    case (Some err)
    with Pair have c: "clear_cache env w = (Some err, w1)" by simp
    then have "clear_fails env w" using clear_cache_fails [of env w] by simp
    then show ?thesis using c by (simp add: delete_route_def)
  qed
qed

theorem cache_clear_witness:
  "stat_images (getCacheStats example_env filled_world) = 2
   \<and> stat_articles (getCacheStats example_env filled_world) = 1
   \<and> fst (delete_route example_env filled_world)
       = \<lparr>resp_status = 200, resp_body = MessageBody ''Cache cleared successfully''\<rparr>
   \<and> stat_images (getCacheStats example_env (snd (delete_route example_env filled_world))) = 0
   \<and> stat_articles (getCacheStats example_env (snd (delete_route example_env filled_world))) = 0
   \<and> stat_lastUpdated (getCacheStats example_env (snd (delete_route example_env filled_world))) = ''Never''
   \<and> resp_status (fst (delete_route (example_env\<lparr>unlink_fails := \<lambda>n. n = ''feeds.json''\<rparr>) filled_world)) = 500"
proof -
  have ok: "\<not> clear_fails example_env filled_world"
    by (simp add: clear_fails_def example_env_def filled_world_def)
  have bad: "clear_fails (example_env\<lparr>unlink_fails := \<lambda>n. n = ''feeds.json''\<rparr>) filled_world"
    by (simp add: clear_fails_def example_env_def filled_world_def)
  have before: "stat_images (getCacheStats example_env filled_world) = 2
     \<and> stat_articles (getCacheStats example_env filled_world) = 1"
    by (simp add: getCacheStats_def example_env_def filled_world_def)
  from cache_clear [of example_env filled_world] ok
    cache_clear [of "example_env\<lparr>unlink_fails := \<lambda>n. n = ''feeds.json''\<rparr>" filled_world] bad before
  show ?thesis by simp
qed

section \<open>Source isolation\<close>

lemma process_all_append:
  "process_all env (xs @ ys) w =
     (let (r1, w1) = process_all env xs w; (r2, w2) = process_all env ys w1 in (r1 @ r2, w2))"
  by (induction xs arbitrary: w) (auto simp: Let_def split: prod.splits)

lemma length_process_all: "process_all env fs w = (rs, w') \<Longrightarrow> length rs = length fs"
  by (induction fs arbitrary: w rs w') (auto simp: Let_def split: prod.splits)

lemma processFeed_failed:
  "extractFeed env (feed_url feed) = Inl e \<Longrightarrow> processFeed env feed w = (failed_result feed e, w)"
  by (simp add: processFeed_def parseFeed_def failed_result_def)

lemma collect_items:
  "snd (snd (collect env w rs (st, ts, acc))) = acc @ concat (map res_items rs)"
  by (induction rs arbitrary: st ts acc) auto

lemma run_cycle_items:
  "items (fst (run_cycle env feeds w)) =
     js_sort (by_date_desc env) (concat (map res_items (fst (process_all env feeds (w\<lparr>isRefreshing := True\<rparr>)))))"
proof -
  obtain rs w1 where p: "process_all env feeds (w\<lparr>isRefreshing := True\<rparr>) = (rs, w1)"
    by (cases "process_all env feeds (w\<lparr>isRefreshing := True\<rparr>)")
  obtain st ts al where c: "collect env w1 rs (Map.empty, Map.empty, []) = (st, ts, al)"
    by (cases "collect env w1 rs (Map.empty, Map.empty, [])") auto
  have "al = concat (map res_items rs)"
    using collect_items [of env w1 rs Map.empty Map.empty "[]"] c by simp
  then show ?thesis
    by (simp add: run_cycle_def p c Let_def save_cache_def)
qed

text \<open>
  Claim C6. When the read of a feed throws, \<^verbatim>\<open>processFeed\<close> returns
  \<^verbatim>\<open>{success: false, error: <the message>, items: []}\<close> and leaves the state as it is.
  In a cycle over the feeds \<open>before @ feed # after\<close>, the results of the other feeds
  and the state they leave are those of the cycle over \<open>before @ after\<close>, and the two
  cycles publish the same items.
\<close>

theorem source_isolation:
  assumes "extractFeed env (feed_url feed) = Inl e"
  shows "processFeed env feed w = (failed_result feed e, w)
     \<and> (\<exists>rs1 rs2 w'. process_all env (before @ after) w0 = (rs1 @ rs2, w')
            \<and> length rs1 = length before \<and> length rs2 = length after
            \<and> process_all env (before @ feed # after) w0 = (rs1 @ failed_result feed e # rs2, w'))
     \<and> items (fst (run_cycle env (before @ feed # after) w0)) = items (fst (run_cycle env (before @ after) w0))"
proof -
  let ?w0 = "w0"
  have one: "\<And>w. processFeed env feed w = (failed_result feed e, w)"
    using assms by (rule processFeed_failed)
  have two: "\<And>w0. \<exists>rs1 rs2 w'. process_all env (before @ after) w0 = (rs1 @ rs2, w')
            \<and> length rs1 = length before \<and> length rs2 = length after
            \<and> process_all env (before @ feed # after) w0 = (rs1 @ failed_result feed e # rs2, w')"
  proof -
    fix w0
    obtain rs1 w1 where a: "process_all env before w0 = (rs1, w1)" by (cases "process_all env before w0")
    obtain rs2 w2 where b: "process_all env after w1 = (rs2, w2)" by (cases "process_all env after w1")
    have l1: "length rs1 = length before" using length_process_all [OF a] .
    have l2: "length rs2 = length after" using length_process_all [OF b] .
    have "process_all env (before @ after) w0 = (rs1 @ rs2, w2)"
      by (simp add: process_all_append a b)
    moreover have "process_all env (before @ feed # after) w0 = (rs1 @ failed_result feed e # rs2, w2)"
      by (simp add: process_all_append a b one)
    ultimately show "\<exists>rs1 rs2 w'. process_all env (before @ after) w0 = (rs1 @ rs2, w')
            \<and> length rs1 = length before \<and> length rs2 = length after
            \<and> process_all env (before @ feed # after) w0 = (rs1 @ failed_result feed e # rs2, w')"
      using l1 l2 by blast
  qed
  have three: "items (fst (run_cycle env (before @ feed # after) w0)) = items (fst (run_cycle env (before @ after) w0))"
  proof -
    obtain rs1 rs2 w' where "process_all env (before @ after) (w0\<lparr>isRefreshing := True\<rparr>) = (rs1 @ rs2, w')"
       "process_all env (before @ feed # after) (w0\<lparr>isRefreshing := True\<rparr>) = (rs1 @ failed_result feed e # rs2, w')"
      using two [of "w0\<lparr>isRefreshing := True\<rparr>"] by blast
    then show ?thesis by (simp add: run_cycle_items failed_result_def)
  qed
  show ?thesis using one two three by blast
qed

theorem source_isolation_witness:
  "extractFeed cycle_env (feed_url (feedConfig_feeds ! 3)) = Inl (JsError ''Request timed out'')
   \<and> processFeed cycle_env (feedConfig_feeds ! 3) example_world
       = (failed_result (feedConfig_feeds ! 3) (JsError ''Request timed out''), example_world)
   \<and> items (fst (run_cycle cycle_env feedConfig_feeds example_world))
       = items (fst (run_cycle cycle_env (take 3 feedConfig_feeds @ drop 4 feedConfig_feeds) example_world))"
proof -
  have f: "extractFeed cycle_env (feed_url (feedConfig_feeds ! 3)) = Inl (JsError ''Request timed out'')"
    by (simp add: feedConfig_feeds_def cycle_env_def)
  have l: "take 3 feedConfig_feeds @ feedConfig_feeds ! 3 # drop 4 feedConfig_feeds = feedConfig_feeds"
    by (simp add: feedConfig_feeds_def)
  from source_isolation [OF f, of example_world "take 3 feedConfig_feeds" "drop 4 feedConfig_feeds" example_world]
  show ?thesis using f unfolding l by blast
qed

section \<open>Sort order of the snapshot\<close>

lemma set_insert_by: "set (insert_by cmp x ys) = insert x (set ys)"
  by (induction ys) auto

lemma length_insert_by: "length (insert_by cmp x ys) = Suc (length ys)"
  by (induction ys) auto

lemma sorted_insert_by:
  assumes "\<And>y. y \<in> set ys \<Longrightarrow> (cmp x y \<le> 0) = (k y \<le> k x)"
    and "sorted_wrt (\<lambda>a b. k b \<le> (k a :: int)) ys"
  shows "sorted_wrt (\<lambda>a b. k b \<le> k a) (insert_by cmp x ys)"
  using assms
proof (induction ys)
  case Nil
  then show ?case by simp
next
  case (Cons y ys)
  show ?case
  proof (cases "cmp x y \<le> 0")
    case True
    then have "k y \<le> k x" using Cons.prems(1) by simp
    then have "\<forall>z \<in> set (y # ys). k z \<le> k x" using Cons.prems(2) by auto
    then show ?thesis using True Cons.prems(2) by simp
  next
    case False
    then have "k x \<le> k y" using Cons.prems(1) [of y] by simp
    moreover have "sorted_wrt (\<lambda>a b. k b \<le> k a) (insert_by cmp x ys)"
      using Cons by simp
    ultimately show ?thesis using False Cons.prems(2) by (auto simp: set_insert_by)
  qed
qed

lemma filter_insert_by:
  assumes "\<And>y. y \<in> set ys \<Longrightarrow> (cmp x y \<le> 0) = (k y \<le> (k x :: int))"
  shows "filter (\<lambda>y. k y = t) (insert_by cmp x ys)
         = (if k x = t then x # filter (\<lambda>y. k y = t) ys else filter (\<lambda>y. k y = t) ys)"
  using assms by (induction ys) auto

lemma js_sort_Cons: "js_sort cmp (x # xs) = insert_by cmp x (js_sort cmp xs)"
  by (simp add: js_sort_def)

lemma set_js_sort: "set (js_sort cmp xs) = set xs"
  by (induction xs) (auto simp: js_sort_Cons set_insert_by, simp add: js_sort_def)

lemma length_js_sort: "length (js_sort cmp xs) = length xs"
  by (induction xs) (auto simp: js_sort_Cons length_insert_by, simp add: js_sort_def)

lemma sorted_js_sort:
  assumes "\<And>x y. x \<in> set xs \<Longrightarrow> y \<in> set xs \<Longrightarrow> (cmp x y \<le> 0) = (k y \<le> (k x :: int))"
  shows "sorted_wrt (\<lambda>a b. k b \<le> k a) (js_sort cmp xs)"
  using assms
proof (induction xs)
  case Nil
  then show ?case by (simp add: js_sort_def)
next
  case (Cons x xs)
  have "sorted_wrt (\<lambda>a b. k b \<le> k a) (js_sort cmp xs)"
    using Cons by simp
  moreover have "\<And>y. y \<in> set (js_sort cmp xs) \<Longrightarrow> (cmp x y \<le> 0) = (k y \<le> k x)"
    using Cons.prems by (simp add: set_js_sort)
  ultimately show ?case
    unfolding js_sort_Cons by (intro sorted_insert_by)
qed

lemma stable_js_sort:
  assumes "\<And>x y. x \<in> set xs \<Longrightarrow> y \<in> set xs \<Longrightarrow> (cmp x y \<le> 0) = (k y \<le> (k x :: int))"
  shows "filter (\<lambda>y. k y = t) (js_sort cmp xs) = filter (\<lambda>y. k y = t) xs"
  using assms
proof (induction xs)
  case Nil
  then show ?case by (simp add: js_sort_def)
next
  case (Cons x xs)
  have ih: "filter (\<lambda>y. k y = t) (js_sort cmp xs) = filter (\<lambda>y. k y = t) xs"
    using Cons by simp
  have "\<And>y. y \<in> set (js_sort cmp xs) \<Longrightarrow> (cmp x y \<le> 0) = (k y \<le> k x)"
    using Cons.prems by (simp add: set_js_sort)
  from filter_insert_by [of "js_sort cmp xs" cmp x k t, OF this] ih
  show ?case by (simp add: js_sort_Cons)
qed

lemma by_date_desc_key:
  "dated env a \<Longrightarrow> dated env b \<Longrightarrow> (by_date_desc env a b \<le> 0) = (time_of env b \<le> time_of env a)"
  by (auto simp: dated_def by_date_desc_def time_of_def)

lemma process_item_dated:
  assumes "iso_roundtrip env" and "process_item env feed icon r n w = (Inr it, w1)"
  shows "dated env it"
proof (cases "date_parse env (raw_pubDate r)")
  case None
  then show ?thesis using assms(2) process_item_invalid_date [of env r feed icon n w] by auto
next
  case (Some t)
  then have "date_parse env (toISOString env t) = Some t"
    using assms(1) by (auto simp: iso_roundtrip_def)
  moreover have "item_pubDate it = toISOString env t"
    using assms(2) Some by (auto simp: process_item_def Let_def split: prod.splits)
  ultimately show ?thesis by (simp add: dated_def)
qed

lemma process_items_dated:
  "iso_roundtrip env \<Longrightarrow> list_all (dated env) acc \<Longrightarrow>
     process_items env feed icon rs acc w = (its, w1) \<Longrightarrow> list_all (dated env) its"
proof (induction rs arbitrary: acc w)
  case Nil
  then show ?case by simp
next
  case (Cons r rs)
  obtain res w2 where p: "process_item env feed icon r (length acc) w = (res, w2)"
    by (cases "process_item env feed icon r (length acc) w")
  show ?case
  proof (cases res)
    case (Inl e)
    then show ?thesis using Cons p by simp
  next
    case (Inr it)
    then have "dated env it" using process_item_dated Cons.prems(1) p by blast
    then have "list_all (dated env) (acc @ [it])" using Cons.prems(2) by simp
    then show ?thesis using Cons.IH [of "acc @ [it]" w2] Cons.prems p Inr by simp
  qed
qed

lemma processFeed_dated:
  assumes "iso_roundtrip env" and "processFeed env feed w = (r, w1)"
  shows "list_all (dated env) (res_items r)"
proof (cases "parseFeed env (feed_url feed) w")
  case (Inl e)
  then show ?thesis using assms(2) by (auto simp: processFeed_def)
next
  case (Inr rawItems)
  obtain icon w2 where fav: "cacheFavicon env (feed_icon feed) (feed_name feed) w = (icon, w2)"
    by (cases "cacheFavicon env (feed_icon feed) (feed_name feed) w")
  obtain its w3 where its: "process_items env feed icon (take maxItemsPerFeed rawItems) [] w2 = (its, w3)"
    by (cases "process_items env feed icon (take maxItemsPerFeed rawItems) [] w2")
  have "list_all (dated env) its"
    using process_items_dated [OF assms(1) _ its] by simp
  moreover have "res_items r = its"
    using assms(2) by (auto simp: processFeed_def Inr fav its)
  ultimately show ?thesis by simp
qed

lemma process_all_dated:
  "iso_roundtrip env \<Longrightarrow> process_all env feeds w = (rs, w1) \<Longrightarrow>
     list_all (dated env) (concat (map res_items rs))"
proof (induction feeds arbitrary: w rs w1)
  case Nil
  then show ?case by simp
next
  case (Cons f fs)
  obtain r w2 where a: "processFeed env f w = (r, w2)" by (cases "processFeed env f w")
  obtain rs' w3 where b: "process_all env fs w2 = (rs', w3)" by (cases "process_all env fs w2")
  have "rs = r # rs'" using Cons.prems(2) a b by simp
  moreover have "list_all (dated env) (res_items r)" using processFeed_dated Cons.prems(1) a by blast
  moreover have "list_all (dated env) (concat (map res_items rs'))" using Cons.IH Cons.prems(1) b by blast
  ultimately show ?case by simp
qed

lemma merged_items_dated: "iso_roundtrip env \<Longrightarrow> list_all (dated env) (merged_items env feeds w)"
  unfolding merged_items_def
  using process_all_dated [of env feeds "w\<lparr>isRefreshing := True\<rparr>"]
  by (cases "process_all env feeds (w\<lparr>isRefreshing := True\<rparr>)") simp

text \<open>
  Claim C7. The items of the snapshot a cycle publishes are the merged items of all
  sources, sorted: every item is dated, the sequence is in descending order of
  \<open>pubDate\<close>, and for every time value the items of that date are in the same relative
  order as in the merged sequence (the sort is stable); no item is lost.
\<close>

theorem snapshot_sorted:
  assumes "iso_roundtrip env" and "\<not> isRefreshing w"
  shows "items (fst (fetchAllFeeds env w))
           = js_sort (by_date_desc env) (merged_items env feedConfig_feeds w)
       \<and> list_all (dated env) (items (fst (fetchAllFeeds env w)))
       \<and> sorted_wrt (\<lambda>a b. time_of env b \<le> time_of env a) (items (fst (fetchAllFeeds env w)))
       \<and> (\<forall>t. filter (\<lambda>it. time_of env it = t) (items (fst (fetchAllFeeds env w)))
              = filter (\<lambda>it. time_of env it = t) (merged_items env feedConfig_feeds w))
       \<and> length (items (fst (fetchAllFeeds env w))) = length (merged_items env feedConfig_feeds w)"
proof -
  let ?m = "merged_items env feedConfig_feeds w"
  have eq: "items (fst (fetchAllFeeds env w)) = js_sort (by_date_desc env) ?m"
    using assms(2) by (simp add: fetchAllFeeds_def run_cycle_items merged_items_def)
  have d: "list_all (dated env) ?m"
    using assms(1) by (rule merged_items_dated)
  then have key: "\<And>x y. x \<in> set ?m \<Longrightarrow> y \<in> set ?m \<Longrightarrow>
      (by_date_desc env x y \<le> 0) = (time_of env y \<le> time_of env x)"
    by (simp add: list_all_iff by_date_desc_key)
  have "list_all (dated env) (js_sort (by_date_desc env) ?m)"
    using d by (simp add: list_all_iff set_js_sort)
  moreover have "sorted_wrt (\<lambda>a b. time_of env b \<le> time_of env a) (js_sort (by_date_desc env) ?m)"
    using key by (rule sorted_js_sort)
  moreover have "\<And>t. filter (\<lambda>it. time_of env it = t) (js_sort (by_date_desc env) ?m)
      = filter (\<lambda>it. time_of env it = t) ?m"
    using key by (rule stable_js_sort)
  ultimately show ?thesis
    by (simp add: eq length_js_sort)
qed

lemma cycle_env_roundtrip: "iso_roundtrip cycle_env"
  by (auto simp: iso_roundtrip_def cycle_env_def example_env_def split: if_splits)

lemma cycle_example:
  "map item_pubDate (items (fst (fetchAllFeeds cycle_env example_world)))
     = [''2024-05-02T01:00:00.000Z'', ''2024-05-02T00:00:00.000Z'', ''2024-05-01T00:00:00.000Z'']"
  by (simp add: fetchAllFeeds_def run_cycle_items example_world_def feedConfig_feeds_def
      processFeed_def parseFeed_def cycle_env_def example_env_def dated_entry_def parse_entry_def
      entry_image_def truthy_def js_or_def or_default_def or_null_def maxItemsPerFeed_def
      cacheFavicon_def cache_body_def catch_null_def image_exists_def faviconFilename_def
      process_item_def extractArticleContent_def no_content_def stripHtml_def
      js_sort_def by_date_desc_def Let_def)

theorem snapshot_sorted_witness:
  "iso_roundtrip cycle_env \<and> \<not> isRefreshing example_world
   \<and> map item_pubDate (items (fst (fetchAllFeeds cycle_env example_world)))
       = [''2024-05-02T01:00:00.000Z'', ''2024-05-02T00:00:00.000Z'', ''2024-05-01T00:00:00.000Z'']
   \<and> sorted_wrt (\<lambda>a b. time_of cycle_env b \<le> time_of cycle_env a)
        (items (fst (fetchAllFeeds cycle_env example_world)))
   \<and> list_all (dated cycle_env) (items (fst (fetchAllFeeds cycle_env example_world)))"
proof -
  have nr: "\<not> isRefreshing example_world"
    by (simp add: example_world_def)
  note th = snapshot_sorted [OF cycle_env_roundtrip nr]
  from th have "sorted_wrt (\<lambda>a b. time_of cycle_env b \<le> time_of cycle_env a)
        (items (fst (fetchAllFeeds cycle_env example_world)))"
    by blast
  moreover from th have "list_all (dated cycle_env) (items (fst (fetchAllFeeds cycle_env example_world)))"
    by blast
  ultimately show ?thesis
    using cycle_env_roundtrip nr cycle_example by blast
qed

section \<open>Image fallback chain\<close>

lemma matched_empty:
  "matched img_src [] = None" "matched og_image [] = None" "matched twitter_image [] = None"
  "matched wp_post_image [] = None" "matched img_ext [] = None"
  by (simp_all add: matched_def img_src_def og_image_def twitter_image_def wp_post_image_def
      img_ext_def rmatch_at_def lit_def or_null_def truthy_def)

lemma matched_nonempty: "matched re s = Some u \<Longrightarrow> u \<noteq> []"
  by (auto simp: matched_def or_null_def truthy_def split: if_splits option.splits)

lemma entry_image_first_match: "entry_image e = first_match e"
proof (cases "ent_description e")
  case None
  then show ?thesis
    by (cases "ent_content e")
       (auto simp: entry_image_def first_match_def image_matchers_def truthy_def or_default_def
          matched_empty split: option.splits)
next
  case (Some d)
  show ?thesis
  proof (cases "d = []")
    case True
    then show ?thesis using Some
      by (cases "ent_content e")
         (auto simp: entry_image_def first_match_def image_matchers_def truthy_def or_default_def
            matched_empty split: option.splits)
  next
    case False
    then show ?thesis using Some
      by (cases "ent_content e")
         (auto simp: entry_image_def first_match_def image_matchers_def truthy_def or_default_def
            description_image_def matched_empty Let_def dest: matched_nonempty split: option.splits)
  qed
qed

lemma both_tags_img: "matched img_src both_tags = Some ''/a.jpg''"
  by (simp add: matched_def img_src_def both_tags_def rmatch_at_def lit_def or_null_def truthy_def
     quoted_capture_def quotes_def run_len_def consume_def ch_eq_def ascii_lower_def)

lemma both_tags_og: "matched og_image both_tags = Some ''/og.png''"
  by (simp add: matched_def og_image_def both_tags_def rmatch_at_def lit_def or_null_def truthy_def
     quoted_capture_def quotes_def run_len_def consume_def ch_eq_def ascii_lower_def)

lemma first_some_None: "first_some f xs = None \<longleftrightarrow> list_all (\<lambda>x. f x = None) xs"
  by (induction xs) (auto split: option.splits)

text \<open>
  Claim C4. The image \<^verbatim>\<open>parseFeed\<close> selects for an entry is the first match of the six
  matchers in their order, and null exactly when none of them matches. In particular,
  when the standard image pattern matches the description, its URL is the result,
  whatever the Open Graph pattern (or any later one) would match.
\<close>

theorem image_chain:
  "entry_image e = first_match e
   \<and> (entry_image e = None \<longleftrightarrow> list_all (\<lambda>m. m e = None) image_matchers)
   \<and> (\<forall>d u. ent_description e = Some d \<longrightarrow> matched img_src d = Some u \<longrightarrow> entry_image e = Some u)"
proof -
  have a: "entry_image e = first_match e" by (rule entry_image_first_match)
  have b: "entry_image e = None \<longleftrightarrow> list_all (\<lambda>m. m e = None) image_matchers"
    unfolding a first_match_def by (rule first_some_None)
  have c: "\<forall>d u. ent_description e = Some d \<longrightarrow> matched img_src d = Some u \<longrightarrow> entry_image e = Some u"
    unfolding a by (simp add: first_match_def image_matchers_def)
  show ?thesis using a b c by blast
qed

theorem image_chain_witness:
  "matched img_src both_tags = Some ''/a.jpg''
   \<and> matched og_image both_tags = Some ''/og.png''
   \<and> entry_image \<lparr>ent_title = Some ''Advisory'', ent_link = Some ''https://example.org/a'',
        ent_description = Some both_tags, ent_content = None, ent_published = None,
        ent_updated = None\<rparr> = Some ''/a.jpg''"
proof -
  let ?e = "\<lparr>ent_title = Some ''Advisory'', ent_link = Some ''https://example.org/a'',
        ent_description = Some both_tags, ent_content = None, ent_published = None,
        ent_updated = None\<rparr>"
  have d: "ent_description ?e = Some both_tags" by simp
  from image_chain [of ?e] have
    "\<forall>d u. ent_description ?e = Some d \<longrightarrow> matched img_src d = Some u \<longrightarrow> entry_image ?e = Some u"
    by blast
  then have "entry_image ?e = Some ''/a.jpg''"
    using d both_tags_img by blast
  then show ?thesis using both_tags_img both_tags_og by blast
qed

section \<open>Truncation bound\<close>

lemma ascii_lower_lt: "ascii_lower x = CHR ''<'' \<longleftrightarrow> x = CHR ''<''"
proof
  assume a: "ascii_lower x = CHR ''<''"
  show "x = CHR ''<''"
  proof (cases "65 \<le> (of_char x :: nat) \<and> (of_char x :: nat) \<le> 90")
    case True
    then have "ascii_lower x = char_of ((of_char x :: nat) + 32)"
      by (simp add: ascii_lower_def Let_def)
    then have "(of_char (ascii_lower x) :: nat) = ((of_char x :: nat) + 32) mod 256"
      by (simp add: of_char_of)
    then have "(of_char (ascii_lower x) :: nat) = (of_char x :: nat) + 32"
      using True by simp
    then show ?thesis using a True by simp
  next
    case False
    then show ?thesis using a by (simp add: ascii_lower_def Let_def split: if_splits)
  qed
next
  assume "x = CHR ''<''"
  then show "ascii_lower x = CHR ''<''" by (simp add: ascii_lower_def)
qed

lemma ch_eq_lt: "ch_eq ci CHR ''<'' x \<longleftrightarrow> x = CHR ''<''"
  using ascii_lower_lt [of x] by (auto simp: ch_eq_def ascii_lower_def)

lemma replace_all_Nil: "rmatch_at ci rs [] = None \<Longrightarrow> replace_all ci rs rep [] = []"
  by (simp add: replace_all.simps)

lemma replace_all_skip:
  "rmatch_at ci rs (x # t) = None \<Longrightarrow> replace_all ci rs rep (x # t) = x # replace_all ci rs rep t"
  by (simp add: replace_all.simps)

lemma replace_all_hit:
  "rmatch_at ci rs (x # t) = Some (g, t) \<Longrightarrow>
     replace_all ci rs rep (x # t) = rep @ replace_all ci rs rep t"
  by (simp add: replace_all.simps)

lemma replace_all_id:
  assumes "rmatch_at ci rs [] = None"
    and "\<And>x t. clean (x # t) \<Longrightarrow>
           rmatch_at ci rs (x # t) = None \<or> (rep = [x] \<and> (\<exists>g. rmatch_at ci rs (x # t) = Some (g, t)))"
  shows "clean s \<Longrightarrow> replace_all ci rs rep s = s"
proof (induction s)
  case Nil
  then show ?case using assms(1) by (simp add: replace_all_Nil)
next
  case (Cons x t)
  then have ih: "replace_all ci rs rep t = t" by simp
  from assms(2) [OF Cons.prems] show ?case
  proof
    assume "rmatch_at ci rs (x # t) = None"
    then show ?thesis using ih by (simp add: replace_all_skip)
  next
    assume "rep = [x] \<and> (\<exists>g. rmatch_at ci rs (x # t) = Some (g, t))"
    then show ?thesis using ih by (auto simp: replace_all_hit)
  qed
qed

lemma tag_no_match:
  "clean (x # t) \<Longrightarrow> rmatch_at ci (One (Ch CHR ''<'') # rs) (x # t) = None"
  by (simp add: rmatch_at_def ch_eq_lt)

lemma tags_id:
  assumes "clean s"
  shows "replace_all ci (One (Ch CHR ''<'') # rs) rep s = s"
  using _ _ assms
proof (rule replace_all_id)
  show "rmatch_at ci (One (Ch CHR ''<'') # rs) [] = None" by (simp add: rmatch_at_def)
next
  fix x t assume "clean (x # t)"
  then show "rmatch_at ci (One (Ch CHR ''<'') # rs) (x # t) = None \<or>
     (rep = [x] \<and> (\<exists>g. rmatch_at ci (One (Ch CHR ''<'') # rs) (x # t) = Some (g, t)))"
    by (simp add: tag_no_match)
qed

lemma blank_neq [simp]: "blank \<noteq> tab" "blank \<noteq> newline" "tab \<noteq> newline" "tab \<noteq> blank" "newline \<noteq> blank" "newline \<noteq> tab"
  by (simp_all add: blank_def tab_def newline_def)

lemma blanks_run:
  "clean (x # t) \<Longrightarrow>
     run_len False (Cls [blank, tab]) None (x # t) = (if x = blank then 1 else 0)"
  by (cases t) (auto simp: run_len_def ch_eq_def)

lemma blanks_run_tl:
  "clean (x # t) \<Longrightarrow> x = newline \<Longrightarrow> run_len False (Cls [blank, tab]) None t = 0"
  by (cases t) (auto simp: run_len_def ch_eq_def)

lemma blanks_id: "clean s \<Longrightarrow> replace_all False blanks [blank] s = s"
proof (rule replace_all_id)
  show "rmatch_at False blanks [] = None"
    by (simp add: rmatch_at_def blanks_def run_len_def)
next
  fix x t assume c: "clean (x # t)"
  show "rmatch_at False blanks (x # t) = None \<or>
     ([blank] = [x] \<and> (\<exists>g. rmatch_at False blanks (x # t) = Some (g, t)))"
    using blanks_run [OF c] by (simp add: rmatch_at_def blanks_def)
qed

lemma nl_blanks_id: "clean s \<Longrightarrow> replace_all False nl_blanks [newline] s = s"
proof (rule replace_all_id)
  show "rmatch_at False nl_blanks [] = None"
    by (simp add: rmatch_at_def nl_blanks_def)
next
  fix x t assume c: "clean (x # t)"
  show "rmatch_at False nl_blanks (x # t) = None \<or>
     ([newline] = [x] \<and> (\<exists>g. rmatch_at False nl_blanks (x # t) = Some (g, t)))"
    using blanks_run_tl [OF c] by (simp add: rmatch_at_def nl_blanks_def ch_eq_def)
qed

lemma blanks_nl_id: "clean s \<Longrightarrow> replace_all False blanks_nl [newline] s = s"
proof (rule replace_all_id)
  show "rmatch_at False blanks_nl [] = None"
    by (simp add: rmatch_at_def blanks_nl_def run_len_def)
next
  fix x t assume c: "clean (x # t)"
  have "rmatch_at False blanks_nl (x # t) = None"
    using c blanks_run [OF c] by (cases t) (auto simp: rmatch_at_def blanks_nl_def ch_eq_def)
  then show "rmatch_at False blanks_nl (x # t) = None \<or>
     ([newline] = [x] \<and> (\<exists>g. rmatch_at False blanks_nl (x # t) = Some (g, t)))"
    by simp
qed

lemma nl_run:
  "clean (x # t) \<Longrightarrow> run_len False (Ch newline) None (x # t) < 3"
  by (cases t; cases "tl t") (auto simp: run_len_def ch_eq_def split: list.splits)

lemma nl3_id: "clean s \<Longrightarrow> replace_all False nl3 [newline, newline] s = s"
proof (rule replace_all_id)
  show "rmatch_at False nl3 [] = None"
    by (simp add: rmatch_at_def nl3_def run_len_def)
next
  fix x t assume c: "clean (x # t)"
  have "[3 ..< Suc (run_len False (Ch newline) None (x # t))] = []"
    using nl_run [OF c] by simp
  then show "rmatch_at False nl3 (x # t) = None \<or>
     ([newline, newline] = [x] \<and> (\<exists>g. rmatch_at False nl3 (x # t) = Some (g, t)))"
    by (simp add: rmatch_at_def nl3_def)
qed

lemma trim_id:
  assumes "case s of [] \<Rightarrow> True | x # t \<Rightarrow> \<not> js_space x \<and> \<not> js_space (last s)"
  shows "trim s = s"
proof (cases s)
  case Nil
  then show ?thesis by (simp add: trim_def)
next
  case (Cons x t)
  then have a: "\<not> js_space x" and b: "\<not> js_space (last s)" using assms by auto
  have "dropWhile js_space s = s" using a Cons by simp
  moreover have "dropWhile js_space (rev s) = rev s"
  proof (cases "rev s")
    case Nil
    then show ?thesis by simp
  next
    case r: (Cons a l)
    then have "a = last s" using hd_rev [of s] by simp
    then have "\<not> js_space a" using b by simp
    then show ?thesis unfolding r by simp
  qed
  ultimately show ?thesis by (simp add: trim_def)
qed

lemma normalize_plain: "plain_body s \<Longrightarrow> normalize s = s"
  by (simp add: normalize_def plain_body_def close_p_def open_p_def br_tag_def close_div_def
      open_div_def any_tag_def lit_def tags_id blanks_id nl_blanks_id blanks_nl_id nl3_id trim_id)

text \<open>
  Claim C5. The article body is 5000 characters long, has no tag and no white space
  that the normalisation would change (\<open>plain_body\<close>). Then \<open>fullText\<close> is the first
  2000 characters of the body followed by the three characters of the ellipsis, 2003
  characters in all.
\<close>

theorem truncation_bound:
  assumes "extractArticle env articleUrl = Inr (Some article)"
    and "art_content article = Some content"
    and "plain_body content" and "length content = 5000"
  shows "ac_fullText (extractArticleContent env articleUrl) = Some (take 2000 content @ ''...'')
         \<and> length (take 2000 content @ ''...'') = 2003"
proof -
  have n: "normalize content = content" using assms(3) by (rule normalize_plain)
  have c: "content \<noteq> []" using assms(4) by auto
  have t: "truncate2000 content = take 2000 content @ ''...''"
    using assms(4) by (simp add: truncate2000_def)
  have "ac_fullText (extractArticleContent env articleUrl) = Some (take 2000 content @ ''...'')"
    using assms(1,2) c
    by (simp add: extractArticleContent_def or_default_def n t or_null_def js_or_def truthy_def)
  then show ?thesis using assms(4) by simp
qed

lemma clean_replicate:
  "c \<noteq> CHR ''<'' \<Longrightarrow> c \<noteq> tab \<Longrightarrow> c \<noteq> blank \<Longrightarrow> c \<noteq> newline \<Longrightarrow> clean (replicate n c)"
proof (induction n)
  case 0
  then show ?case by simp
next
  case (Suc n)
  then show ?case by (cases n) auto
qed

lemma plain_replicate_a: "plain_body (replicate 5000 CHR ''a'')"
proof -
  have "clean (replicate 5000 CHR ''a'')"
    by (rule clean_replicate) (simp_all add: tab_def blank_def newline_def)
  moreover have "replicate 5000 CHR ''a'' = CHR ''a'' # replicate 4999 CHR ''a''"
    by (simp add: replicate_Suc [symmetric] del: replicate_Suc)
  ultimately show ?thesis
    by (simp add: plain_body_def js_space_def del: replicate_Suc)
qed

theorem truncation_bound_witness:
  "ac_fullText (extractArticleContent
      (example_env\<lparr>extractArticle := \<lambda>u. Inr (Some \<lparr>art_content = Some (replicate 5000 CHR ''a''),
          art_description = None, art_image = None, art_author = None\<rparr>)\<rparr>)
      ''https://example.org/a'')
     = Some (replicate 2000 CHR ''a'' @ ''...'')
   \<and> length (replicate 2000 CHR ''a'' @ ''...'') = 2003"
  using truncation_bound [of
      "example_env\<lparr>extractArticle := \<lambda>u. Inr (Some \<lparr>art_content = Some (replicate 5000 CHR ''a''),
          art_description = None, art_image = None, art_author = None\<rparr>)\<rparr>"
      "''https://example.org/a''"
      "\<lparr>art_content = Some (replicate 5000 CHR ''a''),
          art_description = None, art_image = None, art_author = None\<rparr>"
      "replicate 5000 CHR ''a''"] plain_replicate_a
  by (simp add: example_env_def del: replicate_Suc)

end
